theory Spec2Isabelle
  imports Main "HOL-Library.Word" "HOL-Library.Sublist"
begin

section \<open>JavaScript strings\<close>

text \<open>
  A JavaScript string is a finite sequence of 16-bit code units. String literals of the
  source are written with \<open>js\<close>, which maps every character of an ASCII literal to
  its code unit.
\<close>

type_synonym code_unit = "16 word"
type_synonym js_string = "code_unit list"

definition js :: "string \<Rightarrow> js_string" where
  "js s = map of_char s"

text \<open>
  \<open>String.prototype.trim\<close> removes white space and line terminators from both ends:
  TAB, LF, VT, FF, CR, SP, NBSP, U+1680, U+2000 to U+200A, LS, PS, U+202F, U+205F,
  U+3000 and the byte order mark.
\<close>

definition isWhiteSpace :: "code_unit \<Rightarrow> bool" where
  "isWhiteSpace c \<longleftrightarrow>
     c = 0x09 \<or> c = 0x0A \<or> c = 0x0B \<or> c = 0x0C \<or> c = 0x0D \<or> c = 0x20 \<or> c = 0xA0 \<or>
     c = 0x1680 \<or> (0x2000 \<le> c \<and> c \<le> 0x200A) \<or> c = 0x2028 \<or> c = 0x2029 \<or>
     c = 0x202F \<or> c = 0x205F \<or> c = 0x3000 \<or> c = 0xFEFF"

definition trim :: "js_string \<Rightarrow> js_string" where
  "trim s = rev (dropWhile isWhiteSpace (rev (dropWhile isWhiteSpace s)))"

text \<open>
  Strings are read as code points where the standard says so (\<open>StringToCodePoints\<close>):
  a lead surrogate followed by a trail surrogate is one code point above U+FFFF, every
  other code unit is the code point of its own value. \<open>codePointToUnits\<close> is the way
  back (\<open>UTF16EncodeCodePoint\<close>).
\<close>

definition isLeadSurrogate :: "code_unit \<Rightarrow> bool" where
  "isLeadSurrogate c \<longleftrightarrow> 0xD800 \<le> c \<and> c \<le> 0xDBFF"

definition isTrailSurrogate :: "code_unit \<Rightarrow> bool" where
  "isTrailSurrogate c \<longleftrightarrow> 0xDC00 \<le> c \<and> c \<le> 0xDFFF"

fun stringToCodePoints :: "js_string \<Rightarrow> nat list" where
  "stringToCodePoints [] = []"
| "stringToCodePoints [c] = [unat c]"
| "stringToCodePoints (c # d # s) =
     (if isLeadSurrogate c \<and> isTrailSurrogate d
      then (0x10000 + (unat c - 0xD800) * 0x400 + (unat d - 0xDC00)) # stringToCodePoints s
      else unat c # stringToCodePoints (d # s))"

definition codePointToUnits :: "nat \<Rightarrow> js_string" where
  "codePointToUnits cp =
     (if cp \<le> 0xFFFF then [of_nat cp]
      else [of_nat ((cp - 0x10000) div 0x400 + 0xD800),
            of_nat ((cp - 0x10000) mod 0x400 + 0xDC00)])"

text \<open>
  \<open>String.prototype.toLowerCase\<close> is the lower-case conversion of the Unicode
  standard, without any locale: the simple lower-case mapping of every code point, the
  one unconditional special mapping (U+0130 becomes U+0069 U+0307), and the rule for the
  capital sigma U+03A3, which becomes the final sigma U+03C2 where a cased letter
  precedes it and none follows (case-ignorable code points in between are skipped), and
  U+03C3 elsewhere.

  The tables are those of the Unicode Character Database 14.0. A row
  \<open>(a, b, s, t)\<close> of \<open>lowerRuns\<close> maps the code points \<open>a\<close>, \<open>a + s\<close>, ... up
  to \<open>b\<close> to \<open>t\<close>, \<open>t + s\<close>, ...; it lists the code points from U+0100 on, the
  letters below are in \<open>lowerLatin1\<close>. \<open>caseIgnorableRanges\<close> holds the code points
  with the property Case_Ignorable, \<open>casedRanges\<close> those with the property Cased that
  are not case-ignorable.
\<close>

definition lowerRuns :: "(nat \<times> nat \<times> nat \<times> nat) list" where
  "lowerRuns =
     [(0x100, 0x12E, 2, 0x101), (0x132, 0x136, 2, 0x133), (0x139, 0x147, 2, 0x13A),
      (0x14A, 0x176, 2, 0x14B), (0x178, 0x178, 1, 0xFF), (0x179, 0x17D, 2, 0x17A),
      (0x181, 0x181, 1, 0x253), (0x182, 0x184, 2, 0x183), (0x186, 0x186, 1, 0x254),
      (0x187, 0x187, 1, 0x188), (0x189, 0x18A, 1, 0x256), (0x18B, 0x18B, 1, 0x18C),
      (0x18E, 0x18E, 1, 0x1DD), (0x18F, 0x18F, 1, 0x259), (0x190, 0x190, 1, 0x25B),
      (0x191, 0x191, 1, 0x192), (0x193, 0x193, 1, 0x260), (0x194, 0x194, 1, 0x263),
      (0x196, 0x196, 1, 0x269), (0x197, 0x197, 1, 0x268), (0x198, 0x198, 1, 0x199),
      (0x19C, 0x19C, 1, 0x26F), (0x19D, 0x19D, 1, 0x272), (0x19F, 0x19F, 1, 0x275),
      (0x1A0, 0x1A4, 2, 0x1A1), (0x1A6, 0x1A6, 1, 0x280), (0x1A7, 0x1A7, 1, 0x1A8),
      (0x1A9, 0x1A9, 1, 0x283), (0x1AC, 0x1AC, 1, 0x1AD), (0x1AE, 0x1AE, 1, 0x288),
      (0x1AF, 0x1AF, 1, 0x1B0), (0x1B1, 0x1B2, 1, 0x28A), (0x1B3, 0x1B5, 2, 0x1B4),
      (0x1B7, 0x1B7, 1, 0x292), (0x1B8, 0x1B8, 1, 0x1B9), (0x1BC, 0x1BC, 1, 0x1BD),
      (0x1C4, 0x1C4, 1, 0x1C6), (0x1C5, 0x1C5, 1, 0x1C6), (0x1C7, 0x1C7, 1, 0x1C9),
      (0x1C8, 0x1C8, 1, 0x1C9), (0x1CA, 0x1CA, 1, 0x1CC), (0x1CB, 0x1DB, 2, 0x1CC),
      (0x1DE, 0x1EE, 2, 0x1DF), (0x1F1, 0x1F1, 1, 0x1F3), (0x1F2, 0x1F4, 2, 0x1F3),
      (0x1F6, 0x1F6, 1, 0x195), (0x1F7, 0x1F7, 1, 0x1BF), (0x1F8, 0x21E, 2, 0x1F9),
      (0x220, 0x220, 1, 0x19E), (0x222, 0x232, 2, 0x223), (0x23A, 0x23A, 1, 0x2C65),
      (0x23B, 0x23B, 1, 0x23C), (0x23D, 0x23D, 1, 0x19A), (0x23E, 0x23E, 1, 0x2C66),
      (0x241, 0x241, 1, 0x242), (0x243, 0x243, 1, 0x180), (0x244, 0x244, 1, 0x289),
      (0x245, 0x245, 1, 0x28C), (0x246, 0x24E, 2, 0x247), (0x370, 0x372, 2, 0x371),
      (0x376, 0x376, 1, 0x377), (0x37F, 0x37F, 1, 0x3F3), (0x386, 0x386, 1, 0x3AC),
      (0x388, 0x38A, 1, 0x3AD), (0x38C, 0x38C, 1, 0x3CC), (0x38E, 0x38F, 1, 0x3CD),
      (0x391, 0x3A1, 1, 0x3B1), (0x3A3, 0x3AB, 1, 0x3C3), (0x3CF, 0x3CF, 1, 0x3D7),
      (0x3D8, 0x3EE, 2, 0x3D9), (0x3F4, 0x3F4, 1, 0x3B8), (0x3F7, 0x3F7, 1, 0x3F8),
      (0x3F9, 0x3F9, 1, 0x3F2), (0x3FA, 0x3FA, 1, 0x3FB), (0x3FD, 0x3FF, 1, 0x37B),
      (0x400, 0x40F, 1, 0x450), (0x410, 0x42F, 1, 0x430), (0x460, 0x480, 2, 0x461),
      (0x48A, 0x4BE, 2, 0x48B), (0x4C0, 0x4C0, 1, 0x4CF), (0x4C1, 0x4CD, 2, 0x4C2),
      (0x4D0, 0x52E, 2, 0x4D1), (0x531, 0x556, 1, 0x561), (0x10A0, 0x10C5, 1, 0x2D00),
      (0x10C7, 0x10C7, 1, 0x2D27), (0x10CD, 0x10CD, 1, 0x2D2D), (0x13A0, 0x13EF, 1, 0xAB70),
      (0x13F0, 0x13F5, 1, 0x13F8), (0x1C90, 0x1CBA, 1, 0x10D0), (0x1CBD, 0x1CBF, 1, 0x10FD),
      (0x1E00, 0x1E94, 2, 0x1E01), (0x1E9E, 0x1E9E, 1, 0xDF), (0x1EA0, 0x1EFE, 2, 0x1EA1),
      (0x1F08, 0x1F0F, 1, 0x1F00), (0x1F18, 0x1F1D, 1, 0x1F10), (0x1F28, 0x1F2F, 1, 0x1F20),
      (0x1F38, 0x1F3F, 1, 0x1F30), (0x1F48, 0x1F4D, 1, 0x1F40), (0x1F59, 0x1F5F, 2, 0x1F51),
      (0x1F68, 0x1F6F, 1, 0x1F60), (0x1F88, 0x1F8F, 1, 0x1F80), (0x1F98, 0x1F9F, 1, 0x1F90),
      (0x1FA8, 0x1FAF, 1, 0x1FA0), (0x1FB8, 0x1FB9, 1, 0x1FB0), (0x1FBA, 0x1FBB, 1, 0x1F70),
      (0x1FBC, 0x1FBC, 1, 0x1FB3), (0x1FC8, 0x1FCB, 1, 0x1F72), (0x1FCC, 0x1FCC, 1, 0x1FC3),
      (0x1FD8, 0x1FD9, 1, 0x1FD0), (0x1FDA, 0x1FDB, 1, 0x1F76), (0x1FE8, 0x1FE9, 1, 0x1FE0),
      (0x1FEA, 0x1FEB, 1, 0x1F7A), (0x1FEC, 0x1FEC, 1, 0x1FE5), (0x1FF8, 0x1FF9, 1, 0x1F78),
      (0x1FFA, 0x1FFB, 1, 0x1F7C), (0x1FFC, 0x1FFC, 1, 0x1FF3), (0x2126, 0x2126, 1, 0x3C9),
      (0x212A, 0x212A, 1, 0x6B), (0x212B, 0x212B, 1, 0xE5), (0x2132, 0x2132, 1, 0x214E),
      (0x2160, 0x216F, 1, 0x2170), (0x2183, 0x2183, 1, 0x2184), (0x24B6, 0x24CF, 1, 0x24D0),
      (0x2C00, 0x2C2F, 1, 0x2C30), (0x2C60, 0x2C60, 1, 0x2C61), (0x2C62, 0x2C62, 1, 0x26B),
      (0x2C63, 0x2C63, 1, 0x1D7D), (0x2C64, 0x2C64, 1, 0x27D), (0x2C67, 0x2C6B, 2, 0x2C68),
      (0x2C6D, 0x2C6D, 1, 0x251), (0x2C6E, 0x2C6E, 1, 0x271), (0x2C6F, 0x2C6F, 1, 0x250),
      (0x2C70, 0x2C70, 1, 0x252), (0x2C72, 0x2C72, 1, 0x2C73), (0x2C75, 0x2C75, 1, 0x2C76),
      (0x2C7E, 0x2C7F, 1, 0x23F), (0x2C80, 0x2CE2, 2, 0x2C81), (0x2CEB, 0x2CED, 2, 0x2CEC),
      (0x2CF2, 0x2CF2, 1, 0x2CF3), (0xA640, 0xA66C, 2, 0xA641), (0xA680, 0xA69A, 2, 0xA681),
      (0xA722, 0xA72E, 2, 0xA723), (0xA732, 0xA76E, 2, 0xA733), (0xA779, 0xA77B, 2, 0xA77A),
      (0xA77D, 0xA77D, 1, 0x1D79), (0xA77E, 0xA786, 2, 0xA77F), (0xA78B, 0xA78B, 1, 0xA78C),
      (0xA78D, 0xA78D, 1, 0x265), (0xA790, 0xA792, 2, 0xA791), (0xA796, 0xA7A8, 2, 0xA797),
      (0xA7AA, 0xA7AA, 1, 0x266), (0xA7AB, 0xA7AB, 1, 0x25C), (0xA7AC, 0xA7AC, 1, 0x261),
      (0xA7AD, 0xA7AD, 1, 0x26C), (0xA7AE, 0xA7AE, 1, 0x26A), (0xA7B0, 0xA7B0, 1, 0x29E),
      (0xA7B1, 0xA7B1, 1, 0x287), (0xA7B2, 0xA7B2, 1, 0x29D), (0xA7B3, 0xA7B3, 1, 0xAB53),
      (0xA7B4, 0xA7C2, 2, 0xA7B5), (0xA7C4, 0xA7C4, 1, 0xA794), (0xA7C5, 0xA7C5, 1, 0x282),
      (0xA7C6, 0xA7C6, 1, 0x1D8E), (0xA7C7, 0xA7C9, 2, 0xA7C8), (0xA7D0, 0xA7D0, 1, 0xA7D1),
      (0xA7D6, 0xA7D8, 2, 0xA7D7), (0xA7F5, 0xA7F5, 1, 0xA7F6), (0xFF21, 0xFF3A, 1, 0xFF41),
      (0x10400, 0x10427, 1, 0x10428), (0x104B0, 0x104D3, 1, 0x104D8),
      (0x10570, 0x1057A, 1, 0x10597), (0x1057C, 0x1058A, 1, 0x105A3),
      (0x1058C, 0x10592, 1, 0x105B3), (0x10594, 0x10595, 1, 0x105BB),
      (0x10C80, 0x10CB2, 1, 0x10CC0), (0x118A0, 0x118BF, 1, 0x118C0),
      (0x16E40, 0x16E5F, 1, 0x16E60), (0x1E900, 0x1E921, 1, 0x1E922)]"

definition caseIgnorableRanges :: "(nat \<times> nat) list" where
  "caseIgnorableRanges =
     [(0x27, 0x27), (0x2E, 0x2E), (0x3A, 0x3A), (0x5E, 0x5E), (0x60, 0x60), (0xA8, 0xA8),
      (0xAD, 0xAD), (0xAF, 0xAF), (0xB4, 0xB4), (0xB7, 0xB8), (0x2B0, 0x36F), (0x374, 0x375),
      (0x37A, 0x37A), (0x384, 0x385), (0x387, 0x387), (0x483, 0x489), (0x559, 0x559),
      (0x55F, 0x55F), (0x591, 0x5BD), (0x5BF, 0x5BF), (0x5C1, 0x5C2), (0x5C4, 0x5C5),
      (0x5C7, 0x5C7), (0x5F4, 0x5F4), (0x600, 0x605), (0x610, 0x61A), (0x61C, 0x61C),
      (0x640, 0x640), (0x64B, 0x65F), (0x670, 0x670), (0x6D6, 0x6DD), (0x6DF, 0x6E8),
      (0x6EA, 0x6ED), (0x70F, 0x70F), (0x711, 0x711), (0x730, 0x74A), (0x7A6, 0x7B0),
      (0x7EB, 0x7F5), (0x7FA, 0x7FA), (0x7FD, 0x7FD), (0x816, 0x82D), (0x859, 0x85B),
      (0x888, 0x888), (0x890, 0x891), (0x898, 0x89F), (0x8C9, 0x902), (0x93A, 0x93A),
      (0x93C, 0x93C), (0x941, 0x948), (0x94D, 0x94D), (0x951, 0x957), (0x962, 0x963),
      (0x971, 0x971), (0x981, 0x981), (0x9BC, 0x9BC), (0x9C1, 0x9C4), (0x9CD, 0x9CD),
      (0x9E2, 0x9E3), (0x9FE, 0x9FE), (0xA01, 0xA02), (0xA3C, 0xA3C), (0xA41, 0xA42),
      (0xA47, 0xA48), (0xA4B, 0xA4D), (0xA51, 0xA51), (0xA70, 0xA71), (0xA75, 0xA75),
      (0xA81, 0xA82), (0xABC, 0xABC), (0xAC1, 0xAC5), (0xAC7, 0xAC8), (0xACD, 0xACD),
      (0xAE2, 0xAE3), (0xAFA, 0xAFF), (0xB01, 0xB01), (0xB3C, 0xB3C), (0xB3F, 0xB3F),
      (0xB41, 0xB44), (0xB4D, 0xB4D), (0xB55, 0xB56), (0xB62, 0xB63), (0xB82, 0xB82),
      (0xBC0, 0xBC0), (0xBCD, 0xBCD), (0xC00, 0xC00), (0xC04, 0xC04), (0xC3C, 0xC3C),
      (0xC3E, 0xC40), (0xC46, 0xC48), (0xC4A, 0xC4D), (0xC55, 0xC56), (0xC62, 0xC63),
      (0xC81, 0xC81), (0xCBC, 0xCBC), (0xCBF, 0xCBF), (0xCC6, 0xCC6), (0xCCC, 0xCCD),
      (0xCE2, 0xCE3), (0xD00, 0xD01), (0xD3B, 0xD3C), (0xD41, 0xD44), (0xD4D, 0xD4D),
      (0xD62, 0xD63), (0xD81, 0xD81), (0xDCA, 0xDCA), (0xDD2, 0xDD4), (0xDD6, 0xDD6),
      (0xE31, 0xE31), (0xE34, 0xE3A), (0xE46, 0xE4E), (0xEB1, 0xEB1), (0xEB4, 0xEBC),
      (0xEC6, 0xEC6), (0xEC8, 0xECD), (0xF18, 0xF19), (0xF35, 0xF35), (0xF37, 0xF37),
      (0xF39, 0xF39), (0xF71, 0xF7E), (0xF80, 0xF84), (0xF86, 0xF87), (0xF8D, 0xF97),
      (0xF99, 0xFBC), (0xFC6, 0xFC6), (0x102D, 0x1030), (0x1032, 0x1037), (0x1039, 0x103A),
      (0x103D, 0x103E), (0x1058, 0x1059), (0x105E, 0x1060), (0x1071, 0x1074), (0x1082, 0x1082),
      (0x1085, 0x1086), (0x108D, 0x108D), (0x109D, 0x109D), (0x10FC, 0x10FC), (0x135D, 0x135F),
      (0x1712, 0x1714), (0x1732, 0x1733), (0x1752, 0x1753), (0x1772, 0x1773), (0x17B4, 0x17B5),
      (0x17B7, 0x17BD), (0x17C6, 0x17C6), (0x17C9, 0x17D3), (0x17D7, 0x17D7), (0x17DD, 0x17DD),
      (0x180B, 0x180F), (0x1843, 0x1843), (0x1885, 0x1886), (0x18A9, 0x18A9), (0x1920, 0x1922),
      (0x1927, 0x1928), (0x1932, 0x1932), (0x1939, 0x193B), (0x1A17, 0x1A18), (0x1A1B, 0x1A1B),
      (0x1A56, 0x1A56), (0x1A58, 0x1A5E), (0x1A60, 0x1A60), (0x1A62, 0x1A62), (0x1A65, 0x1A6C),
      (0x1A73, 0x1A7C), (0x1A7F, 0x1A7F), (0x1AA7, 0x1AA7), (0x1AB0, 0x1ACE), (0x1B00, 0x1B03),
      (0x1B34, 0x1B34), (0x1B36, 0x1B3A), (0x1B3C, 0x1B3C), (0x1B42, 0x1B42), (0x1B6B, 0x1B73),
      (0x1B80, 0x1B81), (0x1BA2, 0x1BA5), (0x1BA8, 0x1BA9), (0x1BAB, 0x1BAD), (0x1BE6, 0x1BE6),
      (0x1BE8, 0x1BE9), (0x1BED, 0x1BED), (0x1BEF, 0x1BF1), (0x1C2C, 0x1C33), (0x1C36, 0x1C37),
      (0x1C78, 0x1C7D), (0x1CD0, 0x1CD2), (0x1CD4, 0x1CE0), (0x1CE2, 0x1CE8), (0x1CED, 0x1CED),
      (0x1CF4, 0x1CF4), (0x1CF8, 0x1CF9), (0x1D2C, 0x1D6A), (0x1D78, 0x1D78), (0x1D9B, 0x1DFF),
      (0x1FBD, 0x1FBD), (0x1FBF, 0x1FC1), (0x1FCD, 0x1FCF), (0x1FDD, 0x1FDF), (0x1FED, 0x1FEF),
      (0x1FFD, 0x1FFE), (0x200B, 0x200F), (0x2018, 0x2019), (0x2024, 0x2024), (0x2027, 0x2027),
      (0x202A, 0x202E), (0x2060, 0x2064), (0x2066, 0x206F), (0x2071, 0x2071), (0x207F, 0x207F),
      (0x2090, 0x209C), (0x20D0, 0x20F0), (0x2C7C, 0x2C7D), (0x2CEF, 0x2CF1), (0x2D6F, 0x2D6F),
      (0x2D7F, 0x2D7F), (0x2DE0, 0x2DFF), (0x2E2F, 0x2E2F), (0x3005, 0x3005), (0x302A, 0x302D),
      (0x3031, 0x3035), (0x303B, 0x303B), (0x3099, 0x309E), (0x30FC, 0x30FE), (0xA015, 0xA015),
      (0xA4F8, 0xA4FD), (0xA60C, 0xA60C), (0xA66F, 0xA672), (0xA674, 0xA67D), (0xA67F, 0xA67F),
      (0xA69C, 0xA69F), (0xA6F0, 0xA6F1), (0xA700, 0xA721), (0xA770, 0xA770), (0xA788, 0xA78A),
      (0xA7F2, 0xA7F4), (0xA7F8, 0xA7F9), (0xA802, 0xA802), (0xA806, 0xA806), (0xA80B, 0xA80B),
      (0xA825, 0xA826), (0xA82C, 0xA82C), (0xA8C4, 0xA8C5), (0xA8E0, 0xA8F1), (0xA8FF, 0xA8FF),
      (0xA926, 0xA92D), (0xA947, 0xA951), (0xA980, 0xA982), (0xA9B3, 0xA9B3), (0xA9B6, 0xA9B9),
      (0xA9BC, 0xA9BD), (0xA9CF, 0xA9CF), (0xA9E5, 0xA9E6), (0xAA29, 0xAA2E), (0xAA31, 0xAA32),
      (0xAA35, 0xAA36), (0xAA43, 0xAA43), (0xAA4C, 0xAA4C), (0xAA70, 0xAA70), (0xAA7C, 0xAA7C),
      (0xAAB0, 0xAAB0), (0xAAB2, 0xAAB4), (0xAAB7, 0xAAB8), (0xAABE, 0xAABF), (0xAAC1, 0xAAC1),
      (0xAADD, 0xAADD), (0xAAEC, 0xAAED), (0xAAF3, 0xAAF4), (0xAAF6, 0xAAF6), (0xAB5B, 0xAB5F),
      (0xAB69, 0xAB6B), (0xABE5, 0xABE5), (0xABE8, 0xABE8), (0xABED, 0xABED), (0xFB1E, 0xFB1E),
      (0xFBB2, 0xFBC2), (0xFE00, 0xFE0F), (0xFE13, 0xFE13), (0xFE20, 0xFE2F), (0xFE52, 0xFE52),
      (0xFE55, 0xFE55), (0xFEFF, 0xFEFF), (0xFF07, 0xFF07), (0xFF0E, 0xFF0E), (0xFF1A, 0xFF1A),
      (0xFF3E, 0xFF3E), (0xFF40, 0xFF40), (0xFF70, 0xFF70), (0xFF9E, 0xFF9F), (0xFFE3, 0xFFE3),
      (0xFFF9, 0xFFFB), (0x101FD, 0x101FD), (0x102E0, 0x102E0), (0x10376, 0x1037A),
      (0x10780, 0x10785), (0x10787, 0x107B0), (0x107B2, 0x107BA), (0x10A01, 0x10A03),
      (0x10A05, 0x10A06), (0x10A0C, 0x10A0F), (0x10A38, 0x10A3A), (0x10A3F, 0x10A3F),
      (0x10AE5, 0x10AE6), (0x10D24, 0x10D27), (0x10EAB, 0x10EAC), (0x10F46, 0x10F50),
      (0x10F82, 0x10F85), (0x11001, 0x11001), (0x11038, 0x11046), (0x11070, 0x11070),
      (0x11073, 0x11074), (0x1107F, 0x11081), (0x110B3, 0x110B6), (0x110B9, 0x110BA),
      (0x110BD, 0x110BD), (0x110C2, 0x110C2), (0x110CD, 0x110CD), (0x11100, 0x11102),
      (0x11127, 0x1112B), (0x1112D, 0x11134), (0x11173, 0x11173), (0x11180, 0x11181),
      (0x111B6, 0x111BE), (0x111C9, 0x111CC), (0x111CF, 0x111CF), (0x1122F, 0x11231),
      (0x11234, 0x11234), (0x11236, 0x11237), (0x1123E, 0x1123E), (0x112DF, 0x112DF),
      (0x112E3, 0x112EA), (0x11300, 0x11301), (0x1133B, 0x1133C), (0x11340, 0x11340),
      (0x11366, 0x1136C), (0x11370, 0x11374), (0x11438, 0x1143F), (0x11442, 0x11444),
      (0x11446, 0x11446), (0x1145E, 0x1145E), (0x114B3, 0x114B8), (0x114BA, 0x114BA),
      (0x114BF, 0x114C0), (0x114C2, 0x114C3), (0x115B2, 0x115B5), (0x115BC, 0x115BD),
      (0x115BF, 0x115C0), (0x115DC, 0x115DD), (0x11633, 0x1163A), (0x1163D, 0x1163D),
      (0x1163F, 0x11640), (0x116AB, 0x116AB), (0x116AD, 0x116AD), (0x116B0, 0x116B5),
      (0x116B7, 0x116B7), (0x1171D, 0x1171F), (0x11722, 0x11725), (0x11727, 0x1172B),
      (0x1182F, 0x11837), (0x11839, 0x1183A), (0x1193B, 0x1193C), (0x1193E, 0x1193E),
      (0x11943, 0x11943), (0x119D4, 0x119D7), (0x119DA, 0x119DB), (0x119E0, 0x119E0),
      (0x11A01, 0x11A0A), (0x11A33, 0x11A38), (0x11A3B, 0x11A3E), (0x11A47, 0x11A47),
      (0x11A51, 0x11A56), (0x11A59, 0x11A5B), (0x11A8A, 0x11A96), (0x11A98, 0x11A99),
      (0x11C30, 0x11C36), (0x11C38, 0x11C3D), (0x11C3F, 0x11C3F), (0x11C92, 0x11CA7),
      (0x11CAA, 0x11CB0), (0x11CB2, 0x11CB3), (0x11CB5, 0x11CB6), (0x11D31, 0x11D36),
      (0x11D3A, 0x11D3A), (0x11D3C, 0x11D3D), (0x11D3F, 0x11D45), (0x11D47, 0x11D47),
      (0x11D90, 0x11D91), (0x11D95, 0x11D95), (0x11D97, 0x11D97), (0x11EF3, 0x11EF4),
      (0x13430, 0x13438), (0x16AF0, 0x16AF4), (0x16B30, 0x16B36), (0x16B40, 0x16B43),
      (0x16F4F, 0x16F4F), (0x16F8F, 0x16F9F), (0x16FE0, 0x16FE1), (0x16FE3, 0x16FE4),
      (0x1AFF0, 0x1AFF3), (0x1AFF5, 0x1AFFB), (0x1AFFD, 0x1AFFE), (0x1BC9D, 0x1BC9E),
      (0x1BCA0, 0x1BCA3), (0x1CF00, 0x1CF2D), (0x1CF30, 0x1CF46), (0x1D167, 0x1D169),
      (0x1D173, 0x1D182), (0x1D185, 0x1D18B), (0x1D1AA, 0x1D1AD), (0x1D242, 0x1D244),
      (0x1DA00, 0x1DA36), (0x1DA3B, 0x1DA6C), (0x1DA75, 0x1DA75), (0x1DA84, 0x1DA84),
      (0x1DA9B, 0x1DA9F), (0x1DAA1, 0x1DAAF), (0x1E000, 0x1E006), (0x1E008, 0x1E018),
      (0x1E01B, 0x1E021), (0x1E023, 0x1E024), (0x1E026, 0x1E02A), (0x1E130, 0x1E13D),
      (0x1E2AE, 0x1E2AE), (0x1E2EC, 0x1E2EF), (0x1E8D0, 0x1E8D6), (0x1E944, 0x1E94B),
      (0x1F3FB, 0x1F3FF), (0xE0001, 0xE0001), (0xE0020, 0xE007F), (0xE0100, 0xE01EF)]"

definition casedRanges :: "(nat \<times> nat) list" where
  "casedRanges =
     [(0x41, 0x5A), (0x61, 0x7A), (0xAA, 0xAA), (0xB5, 0xB5), (0xBA, 0xBA), (0xC0, 0xD6),
      (0xD8, 0xF6), (0xF8, 0x1BA), (0x1BC, 0x1BF), (0x1C4, 0x293), (0x295, 0x2AF),
      (0x370, 0x373), (0x376, 0x377), (0x37B, 0x37D), (0x37F, 0x37F), (0x386, 0x386),
      (0x388, 0x38A), (0x38C, 0x38C), (0x38E, 0x3A1), (0x3A3, 0x3F5), (0x3F7, 0x481),
      (0x48A, 0x52F), (0x531, 0x556), (0x560, 0x588), (0x10A0, 0x10C5), (0x10C7, 0x10C7),
      (0x10CD, 0x10CD), (0x10D0, 0x10FA), (0x10FD, 0x10FF), (0x13A0, 0x13F5), (0x13F8, 0x13FD),
      (0x1C80, 0x1C88), (0x1C90, 0x1CBA), (0x1CBD, 0x1CBF), (0x1D00, 0x1D2B), (0x1D6B, 0x1D77),
      (0x1D79, 0x1D9A), (0x1E00, 0x1F15), (0x1F18, 0x1F1D), (0x1F20, 0x1F45), (0x1F48, 0x1F4D),
      (0x1F50, 0x1F57), (0x1F59, 0x1F59), (0x1F5B, 0x1F5B), (0x1F5D, 0x1F5D), (0x1F5F, 0x1F7D),
      (0x1F80, 0x1FB4), (0x1FB6, 0x1FBC), (0x1FBE, 0x1FBE), (0x1FC2, 0x1FC4), (0x1FC6, 0x1FCC),
      (0x1FD0, 0x1FD3), (0x1FD6, 0x1FDB), (0x1FE0, 0x1FEC), (0x1FF2, 0x1FF4), (0x1FF6, 0x1FFC),
      (0x2102, 0x2102), (0x2107, 0x2107), (0x210A, 0x2113), (0x2115, 0x2115), (0x2119, 0x211D),
      (0x2124, 0x2124), (0x2126, 0x2126), (0x2128, 0x2128), (0x212A, 0x212D), (0x212F, 0x2134),
      (0x2139, 0x2139), (0x213C, 0x213F), (0x2145, 0x2149), (0x214E, 0x214E), (0x2160, 0x217F),
      (0x2183, 0x2184), (0x24B6, 0x24E9), (0x2C00, 0x2C7B), (0x2C7E, 0x2CE4), (0x2CEB, 0x2CEE),
      (0x2CF2, 0x2CF3), (0x2D00, 0x2D25), (0x2D27, 0x2D27), (0x2D2D, 0x2D2D), (0xA640, 0xA66D),
      (0xA680, 0xA69B), (0xA722, 0xA76F), (0xA771, 0xA787), (0xA78B, 0xA78E), (0xA790, 0xA7CA),
      (0xA7D0, 0xA7D1), (0xA7D3, 0xA7D3), (0xA7D5, 0xA7D9), (0xA7F5, 0xA7F6), (0xA7FA, 0xA7FA),
      (0xAB30, 0xAB5A), (0xAB60, 0xAB68), (0xAB70, 0xABBF), (0xFB00, 0xFB06), (0xFB13, 0xFB17),
      (0xFF21, 0xFF3A), (0xFF41, 0xFF5A), (0x10400, 0x1044F), (0x104B0, 0x104D3),
      (0x104D8, 0x104FB), (0x10570, 0x1057A), (0x1057C, 0x1058A), (0x1058C, 0x10592),
      (0x10594, 0x10595), (0x10597, 0x105A1), (0x105A3, 0x105B1), (0x105B3, 0x105B9),
      (0x105BB, 0x105BC), (0x10C80, 0x10CB2), (0x10CC0, 0x10CF2), (0x118A0, 0x118DF),
      (0x16E40, 0x16E7F), (0x1D400, 0x1D454), (0x1D456, 0x1D49C), (0x1D49E, 0x1D49F),
      (0x1D4A2, 0x1D4A2), (0x1D4A5, 0x1D4A6), (0x1D4A9, 0x1D4AC), (0x1D4AE, 0x1D4B9),
      (0x1D4BB, 0x1D4BB), (0x1D4BD, 0x1D4C3), (0x1D4C5, 0x1D505), (0x1D507, 0x1D50A),
      (0x1D50D, 0x1D514), (0x1D516, 0x1D51C), (0x1D51E, 0x1D539), (0x1D53B, 0x1D53E),
      (0x1D540, 0x1D544), (0x1D546, 0x1D546), (0x1D54A, 0x1D550), (0x1D552, 0x1D6A5),
      (0x1D6A8, 0x1D6C0), (0x1D6C2, 0x1D6DA), (0x1D6DC, 0x1D6FA), (0x1D6FC, 0x1D714),
      (0x1D716, 0x1D734), (0x1D736, 0x1D74E), (0x1D750, 0x1D76E), (0x1D770, 0x1D788),
      (0x1D78A, 0x1D7A8), (0x1D7AA, 0x1D7C2), (0x1D7C4, 0x1D7CB), (0x1DF00, 0x1DF09),
      (0x1DF0B, 0x1DF1E), (0x1E900, 0x1E943), (0x1F130, 0x1F149), (0x1F150, 0x1F169),
      (0x1F170, 0x1F189)]"

fun lookupRun :: "(nat \<times> nat \<times> nat \<times> nat) list \<Rightarrow> nat \<Rightarrow> nat" where
  "lookupRun [] c = c"
| "lookupRun ((a, b, s, t) # rs) c =
     (if a \<le> c \<and> c \<le> b \<and> (c - a) mod s = 0 then t + (c - a) else lookupRun rs c)"

fun inRanges :: "(nat \<times> nat) list \<Rightarrow> nat \<Rightarrow> bool" where
  "inRanges [] c = False"
| "inRanges ((a, b) # rs) c = (a \<le> c \<and> c \<le> b \<or> inRanges rs c)"

definition lowerLatin1 :: "nat \<Rightarrow> nat" where
  "lowerLatin1 c =
     (if 0x41 \<le> c \<and> c \<le> 0x5A then c + 0x20
      else if 0xC0 \<le> c \<and> c \<le> 0xDE \<and> c \<noteq> 0xD7 then c + 0x20
      else c)"

definition simpleLower :: "nat \<Rightarrow> nat" where
  "simpleLower c = (if c < 0x100 then lowerLatin1 c else lookupRun lowerRuns c)"

definition lowerCodePoint :: "nat \<Rightarrow> nat list" where
  "lowerCodePoint c = (if c = 0x130 then [0x69, 0x307] else [simpleLower c])"

definition caseIgnorable :: "nat \<Rightarrow> bool" where
  "caseIgnorable c = inRanges caseIgnorableRanges c"

definition cased :: "nat \<Rightarrow> bool" where
  "cased c = inRanges casedRanges c"

text \<open>
  \<open>seen\<close> holds the code points in front of the sigma, the nearest first;
  \<open>rest\<close> those behind it.
\<close>

definition finalSigma :: "nat list \<Rightarrow> nat list \<Rightarrow> bool" where
  "finalSigma seen rest \<longleftrightarrow>
     (case dropWhile caseIgnorable seen of [] \<Rightarrow> False | b # _ \<Rightarrow> cased b) \<and>
     (case dropWhile caseIgnorable rest of [] \<Rightarrow> True | a # _ \<Rightarrow> \<not> cased a)"

fun lowerCodePoints :: "nat list \<Rightarrow> nat list \<Rightarrow> nat list" where
  "lowerCodePoints seen [] = []"
| "lowerCodePoints seen (c # rest) =
     (if c = 0x3A3 then (if finalSigma seen rest then [0x3C2] else [0x3C3])
      else lowerCodePoint c) @ lowerCodePoints (c # seen) rest"

definition toLowerCase :: "js_string \<Rightarrow> js_string" where
  "toLowerCase s = concat (map codePointToUnits (lowerCodePoints [] (stringToCodePoints s)))"

text \<open>
  \<open>s.includes(t)\<close>: \<open>t\<close> is searched at every position of \<open>s\<close>, from the left.
\<close>

fun includes_js :: "js_string \<Rightarrow> js_string \<Rightarrow> bool" where
  "includes_js [] t = (t = [])"
| "includes_js (c # s) t = (prefix t (c # s) \<or> includes_js s t)"

text \<open>
  \<open>Number.prototype.toString\<close> on a non-negative integer (what \<open>Date.now()\<close>
  returns): its decimal digits, most significant first.
\<close>

fun toString :: "nat \<Rightarrow> js_string" where
  "toString n =
     (if n < 10 then [of_nat (48 + n)]
      else toString (n div 10) @ [of_nat (48 + n mod 10)])"

declare toString.simps [simp del]

section \<open>JSON\<close>

text \<open>
  The values \<open>JSON.parse\<close> can return. A number keeps its literal (its floating-point
  value is not modelled); an object keeps its members in the order of the text.
\<close>

datatype json =
    JNull
  | JBool bool
  | JNum js_string
  | JStr js_string
  | JArr "json list"
  | JObj "(js_string \<times> json) list"

subsection \<open>\<open>JSON.stringify\<close>\<close>

definition hexDigit :: "nat \<Rightarrow> code_unit" where
  "hexDigit k = (if k < 10 then of_nat (48 + k) else of_nat (87 + k))"

definition hex4 :: "code_unit \<Rightarrow> js_string" where
  "hex4 c =
     [hexDigit (unat c div 4096), hexDigit (unat c div 256 mod 16),
      hexDigit (unat c div 16 mod 16), hexDigit (unat c mod 16)]"

text \<open>
  One code point that is not a surrogate pair, as \<open>QuoteJSONString\<close> writes it: the
  two-character escapes, \<open>\uXXXX\<close> (lower-case digits) for the other control
  characters and for a lone surrogate, and the code unit itself otherwise.
\<close>

definition quoteUnit :: "code_unit \<Rightarrow> js_string" where
  "quoteUnit c =
     (if c = 0x08 then [0x5C, 0x62]
      else if c = 0x09 then [0x5C, 0x74]
      else if c = 0x0A then [0x5C, 0x6E]
      else if c = 0x0C then [0x5C, 0x66]
      else if c = 0x0D then [0x5C, 0x72]
      else if c = 0x22 then [0x5C, 0x22]
      else if c = 0x5C then [0x5C, 0x5C]
      else if c < 0x20 \<or> isLeadSurrogate c \<or> isTrailSurrogate c then [0x5C, 0x75] @ hex4 c
      else [c])"

fun quoteUnits :: "js_string \<Rightarrow> js_string" where
  "quoteUnits [] = []"
| "quoteUnits [c] = quoteUnit c"
| "quoteUnits (c # d # s) =
     (if isLeadSurrogate c \<and> isTrailSurrogate d then c # d # quoteUnits s
      else quoteUnit c @ quoteUnits (d # s))"

definition quoteJSONString :: "js_string \<Rightarrow> js_string" where
  "quoteJSONString s = 0x22 # quoteUnits s @ [0x22]"

fun joinComma :: "js_string list \<Rightarrow> js_string" where
  "joinComma [] = []"
| "joinComma [x] = x"
| "joinComma (x # y # xs) = x @ 0x2C # joinComma (y # xs)"

definition memberText :: "js_string \<times> js_string \<Rightarrow> js_string" where
  "memberText m = quoteJSONString (fst m) @ 0x3A # snd m"

primrec JSON_stringify :: "json \<Rightarrow> js_string" where
  "JSON_stringify JNull = js ''null''"
| "JSON_stringify (JBool b) = (if b then js ''true'' else js ''false'')"
| "JSON_stringify (JNum n) = n"
| "JSON_stringify (JStr s) = quoteJSONString s"
| "JSON_stringify (JArr vs) = 0x5B # joinComma (map JSON_stringify vs) @ [0x5D]"
| "JSON_stringify (JObj ms) =
     0x7B # joinComma (map memberText (map (map_prod id JSON_stringify) ms)) @ [0x7D]"

subsection \<open>\<open>JSON.parse\<close>\<close>

text \<open>
  A recursive-descent reader of the JSON grammar (ECMA-404): white space, the three
  literals, numbers, strings with their escapes, arrays and objects. Every reader
  returns the value read and the rest of the text, or \<open>None\<close> where the text is not
  JSON. The readers of values, elements and members call each other on shorter and
  shorter rests; they are given the length of the text as fuel.
\<close>

definition isJSONWhiteSpace :: "code_unit \<Rightarrow> bool" where
  "isJSONWhiteSpace c \<longleftrightarrow> c = 0x09 \<or> c = 0x0A \<or> c = 0x0D \<or> c = 0x20"

definition skipWS :: "js_string \<Rightarrow> js_string" where
  "skipWS s = dropWhile isJSONWhiteSpace s"

definition hexValue :: "code_unit \<Rightarrow> nat option" where
  "hexValue c =
     (if 0x30 \<le> c \<and> c \<le> 0x39 then Some (unat c - 48)
      else if 0x61 \<le> c \<and> c \<le> 0x66 then Some (unat c - 87)
      else if 0x41 \<le> c \<and> c \<le> 0x46 then Some (unat c - 55)
      else None)"

fun parseHex4 :: "js_string \<Rightarrow> code_unit option" where
  "parseHex4 [a, b, c, d] =
     (case (hexValue a, hexValue b, hexValue c, hexValue d) of
        (Some x, Some y, Some z, Some w) \<Rightarrow> Some (of_nat (((x * 16 + y) * 16 + z) * 16 + w))
      | _ \<Rightarrow> None)"
| "parseHex4 _ = None"

definition unescape :: "code_unit \<Rightarrow> code_unit option" where
  "unescape e =
     (if e = 0x22 then Some 0x22
      else if e = 0x5C then Some 0x5C
      else if e = 0x2F then Some 0x2F
      else if e = 0x62 then Some 0x08
      else if e = 0x66 then Some 0x0C
      else if e = 0x6E then Some 0x0A
      else if e = 0x72 then Some 0x0D
      else if e = 0x74 then Some 0x09
      else None)"

fun parseChars :: "js_string \<Rightarrow> (js_string \<times> js_string) option" where
  "parseChars [] = None"
| "parseChars (c # cs) =
     (if c = 0x22 then Some ([], cs)
      else if c = 0x5C then
        (case cs of
           [] \<Rightarrow> None
         | e # es \<Rightarrow>
             if e = 0x75 then
               (case parseHex4 (take 4 es) of
                  None \<Rightarrow> None
                | Some u \<Rightarrow> map_option (apfst ((#) u)) (parseChars (drop 4 es)))
             else
               (case unescape e of
                  None \<Rightarrow> None
                | Some u \<Rightarrow> map_option (apfst ((#) u)) (parseChars es)))
      else if c < 0x20 then None
      else map_option (apfst ((#) c)) (parseChars cs))"

definition isDigit :: "code_unit \<Rightarrow> bool" where
  "isDigit c \<longleftrightarrow> 0x30 \<le> c \<and> c \<le> 0x39"

definition parseInt :: "js_string \<Rightarrow> (js_string \<times> js_string) option" where
  "parseInt s =
     (case s of
        [] \<Rightarrow> None
      | c # cs \<Rightarrow>
          if c = 0x30 then Some ([c], cs)
          else if isDigit c then Some (c # takeWhile isDigit cs, dropWhile isDigit cs)
          else None)"

definition parseFrac :: "js_string \<Rightarrow> (js_string \<times> js_string) option" where
  "parseFrac s =
     (case s of
        [] \<Rightarrow> Some ([], s)
      | c # cs \<Rightarrow>
          if c = 0x2E then
            (if takeWhile isDigit cs = [] then None
             else Some (c # takeWhile isDigit cs, dropWhile isDigit cs))
          else Some ([], s))"

definition parseSign :: "js_string \<Rightarrow> js_string \<times> js_string" where
  "parseSign s =
     (case s of
        [] \<Rightarrow> ([], s)
      | c # cs \<Rightarrow> if c = 0x2B \<or> c = 0x2D then ([c], cs) else ([], s))"

definition parseExp :: "js_string \<Rightarrow> (js_string \<times> js_string) option" where
  "parseExp s =
     (case s of
        [] \<Rightarrow> Some ([], s)
      | c # cs \<Rightarrow>
          if c = 0x65 \<or> c = 0x45 then
            (case parseSign cs of
               (sg, ds) \<Rightarrow>
                 if takeWhile isDigit ds = [] then None
                 else Some (c # sg @ takeWhile isDigit ds, dropWhile isDigit ds))
          else Some ([], s))"

definition parseNumber :: "js_string \<Rightarrow> (json \<times> js_string) option" where
  "parseNumber s =
     (case (case s of [] \<Rightarrow> ([], s) | c # cs \<Rightarrow> if c = 0x2D then ([c], cs) else ([], s)) of
        (neg, s1) \<Rightarrow>
          (case parseInt s1 of
             None \<Rightarrow> None
           | Some (i, s2) \<Rightarrow>
               (case parseFrac s2 of
                  None \<Rightarrow> None
                | Some (f, s3) \<Rightarrow>
                    (case parseExp s3 of
                       None \<Rightarrow> None
                     | Some (e, s4) \<Rightarrow> Some (JNum (neg @ i @ f @ e), s4)))))"

fun parseValue :: "nat \<Rightarrow> js_string \<Rightarrow> (json \<times> js_string) option"
  and parseElements :: "nat \<Rightarrow> js_string \<Rightarrow> (json list \<times> js_string) option"
  and parseMembers :: "nat \<Rightarrow> js_string \<Rightarrow> ((js_string \<times> json) list \<times> js_string) option"
where
  "parseValue 0 s = None"
| "parseValue (Suc n) s =
     (case s of
        [] \<Rightarrow> None
      | c # cs \<Rightarrow>
          if c = 0x7B then
            (case skipWS cs of
               [] \<Rightarrow> None
             | d # ds \<Rightarrow>
                 if d = 0x7D then Some (JObj [], ds)
                 else map_option (apfst JObj) (parseMembers n (d # ds)))
          else if c = 0x5B then
            (case skipWS cs of
               [] \<Rightarrow> None
             | d # ds \<Rightarrow>
                 if d = 0x5D then Some (JArr [], ds)
                 else map_option (apfst JArr) (parseElements n (d # ds)))
          else if c = 0x22 then map_option (apfst JStr) (parseChars cs)
          else if prefix (js ''true'') s then Some (JBool True, drop 4 s)
          else if prefix (js ''false'') s then Some (JBool False, drop 5 s)
          else if prefix (js ''null'') s then Some (JNull, drop 4 s)
          else parseNumber s)"
| "parseElements 0 s = None"
| "parseElements (Suc n) s =
     (case parseValue n (skipWS s) of
        None \<Rightarrow> None
      | Some (v, r) \<Rightarrow>
          (case skipWS r of
             [] \<Rightarrow> None
           | d # ds \<Rightarrow>
               if d = 0x2C then map_option (apfst ((#) v)) (parseElements n ds)
               else if d = 0x5D then Some ([v], ds)
               else None))"
| "parseMembers 0 s = None"
| "parseMembers (Suc n) s =
     (case skipWS s of
        [] \<Rightarrow> None
      | q # ks \<Rightarrow>
          if q \<noteq> 0x22 then None
          else
            (case parseChars ks of
               None \<Rightarrow> None
             | Some (k, r) \<Rightarrow>
                 (case skipWS r of
                    [] \<Rightarrow> None
                  | c # cs \<Rightarrow>
                      if c \<noteq> 0x3A then None
                      else
                        (case parseValue n (skipWS cs) of
                           None \<Rightarrow> None
                         | Some (v, r') \<Rightarrow>
                             (case skipWS r' of
                                [] \<Rightarrow> None
                              | d # ds \<Rightarrow>
                                  if d = 0x2C then map_option (apfst ((#) (k, v))) (parseMembers n ds)
                                  else if d = 0x7D then Some ([(k, v)], ds)
                                  else None)))))"

definition JSON_parse :: "js_string \<Rightarrow> json option" where
  "JSON_parse s =
     (case parseValue (Suc (length s)) (skipWS s) of
        None \<Rightarrow> None
      | Some (v, r) \<Rightarrow> if skipWS r = [] then Some v else None)"

section \<open>The task manager\<close>

text \<open>
  A task as \<open>addTask\<close> builds it. The field \<open>id\<close> is called \<open>task_id\<close> here.
\<close>

record task =
  task_id :: js_string
  title :: js_string
  description :: js_string
  dueDate :: js_string
  priority :: js_string
  completed :: bool
  createdAt :: js_string

text \<open>The object \<open>JSON.stringify\<close> sees for a task, and the array for the collection.\<close>

definition taskJSON :: "task \<Rightarrow> json" where
  "taskJSON t =
     JObj [(js ''id'', JStr (task_id t)), (js ''title'', JStr (title t)),
           (js ''description'', JStr (description t)), (js ''dueDate'', JStr (dueDate t)),
           (js ''priority'', JStr (priority t)), (js ''completed'', JBool (completed t)),
           (js ''createdAt'', JStr (createdAt t))]"

definition tasksJSON :: "task list \<Rightarrow> json" where
  "tasksJSON ts = JArr (map taskJSON ts)"

text \<open>
  The values of the four form fields \<open>taskTitle\<close>, \<open>taskDescription\<close>, \<open>dueDate\<close>
  and \<open>priority\<close>, as \<open>addTask\<close> reads them and \<open>editTask\<close> writes them.
\<close>

record draft =
  taskTitle :: js_string
  taskDescription :: js_string
  taskDueDate :: js_string
  taskPriority :: js_string

text \<open>
  The state of a \<open>TaskManager\<close>: its three fields and the browser's \<open>localStorage\<close>.
  Rendering and the statistics display only read the state and are left out. The form
  belongs to the page: what \<open>addTask\<close> reads from it is an argument, what
  \<open>editTask\<close> writes into it is a result, and \<open>resetForm\<close> is left out.
\<close>

record store =
  tasks :: "task list"
  currentFilter :: js_string
  searchTerm :: js_string
  localStorage :: "js_string \<rightharpoonup> js_string"

datatype js_error = SyntaxError

definition saveTasks :: "store \<Rightarrow> store" where
  "saveTasks st =
     st\<lparr>localStorage := (localStorage st)(js ''tasks'' \<mapsto> JSON_stringify (tasksJSON (tasks st)))\<rparr>"

text \<open>
  \<open>saved ? JSON.parse(saved) : []\<close>: \<open>null\<close> and the empty string are falsy; a
  text that is not JSON makes \<open>JSON.parse\<close> throw a \<open>SyntaxError\<close>, which
  \<open>loadTasks\<close> does not catch.
\<close>

definition loadTasks :: "(js_string \<rightharpoonup> js_string) \<Rightarrow> js_error + json" where
  "loadTasks ls =
     (case ls (js ''tasks'') of
        None \<Rightarrow> Inr (JArr [])
      | Some saved \<Rightarrow>
          if saved = [] then Inr (JArr [])
          else (case JSON_parse saved of None \<Rightarrow> Inl SyntaxError | Some v \<Rightarrow> Inr v))"

text \<open>
  \<open>addTask\<close> reads the form, the clock (\<open>Date.now()\<close>, in milliseconds) and the
  time stamp \<open>new Date().toISOString()\<close>. It either shows an alert and returns, or
  puts the new task in front and saves.
\<close>

datatype add_outcome = Alert js_string | Added

definition addTask :: "draft \<Rightarrow> nat \<Rightarrow> js_string \<Rightarrow> store \<Rightarrow> add_outcome \<times> store" where
  "addTask form now stamp st =
     (let title' = trim (taskTitle form);
          description' = trim (taskDescription form);
          dueDate' = taskDueDate form;
          priority' = taskPriority form
      in if title' = [] then (Alert (js ''Please enter a task title''), st)
         else
           (Added,
            saveTasks (st\<lparr>tasks :=
              \<lparr>task_id = toString now, title = title', description = description',
               dueDate = dueDate', priority = priority', completed = False,
               createdAt = stamp\<rparr> # tasks st\<rparr>)))"

text \<open>
  \<open>editTask\<close> returns what it writes into the form (\<open>x || ''\<close> is \<open>x\<close> for a
  string), or \<open>None\<close> when it returns early.
\<close>

definition orEmpty :: "js_string \<Rightarrow> js_string" where
  "orEmpty s = (if s = [] then [] else s)"

definition editTask :: "js_string \<Rightarrow> store \<Rightarrow> draft option \<times> store" where
  "editTask i st =
     (case find (\<lambda>t. task_id t = i) (tasks st) of
        None \<Rightarrow> (None, st)
      | Some t \<Rightarrow>
          (Some \<lparr>taskTitle = title t, taskDescription = orEmpty (description t),
                 taskDueDate = orEmpty (dueDate t), taskPriority = priority t\<rparr>,
           saveTasks (st\<lparr>tasks := filter (\<lambda>t. task_id t \<noteq> i) (tasks st)\<rparr>)))"

text \<open>\<open>deleteTask\<close> asks \<open>confirm(...)\<close> first; the answer is its second argument.\<close>

definition deleteTask :: "js_string \<Rightarrow> bool \<Rightarrow> store \<Rightarrow> store" where
  "deleteTask i confirmed st =
     (if confirmed then saveTasks (st\<lparr>tasks := filter (\<lambda>t. task_id t \<noteq> i) (tasks st)\<rparr>)
      else st)"

definition toggleTask :: "js_string \<Rightarrow> store \<Rightarrow> store" where
  "toggleTask i st =
     saveTasks (st\<lparr>tasks :=
       map (\<lambda>t. if task_id t = i then t\<lparr>completed := \<not> completed t\<rparr> else t) (tasks st)\<rparr>)"

definition setFilter :: "js_string \<Rightarrow> store \<Rightarrow> store" where
  "setFilter f st = st\<lparr>currentFilter := f\<rparr>"

text \<open>The \<open>input\<close> listener of the search box, registered in \<open>bindEvents\<close>.\<close>

definition searchInput :: "js_string \<Rightarrow> store \<Rightarrow> store" where
  "searchInput v st = st\<lparr>searchTerm := toLowerCase v\<rparr>"

definition matchesSearch :: "js_string \<Rightarrow> task \<Rightarrow> bool" where
  "matchesSearch term t \<longleftrightarrow>
     includes_js (toLowerCase (title t)) term \<or>
     (description t \<noteq> [] \<and> includes_js (toLowerCase (description t)) term)"

definition getFilteredTasks :: "store \<Rightarrow> task list" where
  "getFilteredTasks st =
     (let filtered = tasks st;
          filtered =
            (if currentFilter st = js ''active'' then filter (\<lambda>t. \<not> completed t) filtered
             else if currentFilter st = js ''completed'' then filter (\<lambda>t. completed t) filtered
             else filtered);
          filtered =
            (if searchTerm st \<noteq> [] then filter (matchesSearch (searchTerm st)) filtered
             else filtered)
      in filtered)"

text \<open>
  The query of the presentation layer: the filter button sets the filter, the search
  box sets the search term, and rendering calls \<open>getFilteredTasks\<close>.
\<close>

definition query :: "js_string \<Rightarrow> js_string \<Rightarrow> store \<Rightarrow> task list" where
  "query f term st = getFilteredTasks (searchInput term (setFilter f st))"

section \<open>Start-up and sample data\<close>

text \<open>
  The state the constructor builds when \<open>localStorage\<close> holds nothing, and the three
  sample tasks the script installs when the collection is empty after start-up. Their
  due dates and time stamps come from the clock and are parameters here.
\<close>

definition emptyStorage :: "js_string \<rightharpoonup> js_string" where
  "emptyStorage = Map.empty"

definition emptyStore :: store where
  "emptyStore =
     \<lparr>tasks = [], currentFilter = js ''all'', searchTerm = [], localStorage = emptyStorage\<rparr>"

definition sampleTasks ::
  "js_string \<Rightarrow> js_string \<Rightarrow> js_string \<Rightarrow> js_string \<Rightarrow> js_string \<Rightarrow> js_string \<Rightarrow> task list" where
  "sampleTasks due1 due2 due3 stamp1 stamp2 stamp3 =
     [\<lparr>task_id = js ''1'', title = js ''Welcome to TaskMaster Pro!'',
       description = js ''This is a sample task. You can edit or delete it.'',
       dueDate = due1, priority = js ''high'', completed = False, createdAt = stamp1\<rparr>,
      \<lparr>task_id = js ''2'', title = js ''Complete CSE 310 module'',
       description = js ''Work on the Web Apps module project'',
       dueDate = due2, priority = js ''medium'', completed = False, createdAt = stamp2\<rparr>,
      \<lparr>task_id = js ''3'', title = js ''Learn JavaScript ES6 features'',
       description = js ''Study arrow functions, destructuring, and modules'',
       dueDate = due3, priority = js ''low'', completed = True, createdAt = stamp3\<rparr>]"

definition addSamples ::
  "js_string \<Rightarrow> js_string \<Rightarrow> js_string \<Rightarrow> js_string \<Rightarrow> js_string \<Rightarrow> js_string \<Rightarrow> store \<Rightarrow> store" where
  "addSamples due1 due2 due3 stamp1 stamp2 stamp3 st =
     (if length (tasks st) = 0
      then saveTasks (st\<lparr>tasks := sampleTasks due1 due2 due3 stamp1 stamp2 stamp3\<rparr>)
      else st)"

text \<open>A first visit on 3 November 2026, and a form filled in for a new task.\<close>

definition demoStore :: store where
  "demoStore =
     addSamples (js ''2026-11-04'') (js ''2026-11-05'') (js ''2026-11-06'')
       (js ''2026-11-03T09:00:00.000Z'') (js ''2026-11-03T09:00:00.000Z'')
       (js ''2026-11-03T09:00:00.001Z'') emptyStore"

text \<open>Two tasks submitted within the same millisecond on an empty collection.\<close>

definition sameMillisecond :: store where
  "sameMillisecond =
     snd (addTask
       \<lparr>taskTitle = js ''b'', taskDescription = [], taskDueDate = [], taskPriority = js ''low''\<rparr>
       1793696400000 (js ''2026-11-03T09:00:00.000Z'')
     (snd (addTask
       \<lparr>taskTitle = js ''a'', taskDescription = [], taskDueDate = [], taskPriority = js ''low''\<rparr>
       1793696400000 (js ''2026-11-03T09:00:00.000Z'') emptyStore)))"

text \<open>
  A collection with the one task \<open>KOSMOS\<close> in Greek capitals (kappa, omicron, sigma,
  mu, omicron, sigma), and the search term of its first three letters.
\<close>

definition kosmosTask :: task where
  "kosmosTask =
     \<lparr>task_id = js ''1793696400000'', title = [0x39A, 0x39F, 0x3A3, 0x39C, 0x39F, 0x3A3],
      description = [], dueDate = [], priority = js ''medium'', completed = False,
      createdAt = js ''2026-11-03T09:00:00.000Z''\<rparr>"

definition kosmosStore :: store where
  "kosmosStore =
     snd (addTask
       \<lparr>taskTitle = [0x39A, 0x39F, 0x3A3, 0x39C, 0x39F, 0x3A3], taskDescription = [],
        taskDueDate = [], taskPriority = js ''medium''\<rparr>
       1793696400000 (js ''2026-11-03T09:00:00.000Z'') emptyStore)"

definition kos :: js_string where
  "kos = [0x39A, 0x39F, 0x3A3]"

definition milkDraft :: draft where
  "milkDraft =
     \<lparr>taskTitle = js '' Buy milk '', taskDescription = [], taskDueDate = [],
      taskPriority = js ''low''\<rparr>"

section \<open>Notions of the specification\<close>

text \<open>
  A task passes the status filter \<open>f\<close>: only \<open>active\<close> and \<open>completed\<close> exclude
  tasks.
\<close>

definition passesStatus :: "js_string \<Rightarrow> task \<Rightarrow> bool" where
  "passesStatus f t \<longleftrightarrow>
     (if f = js ''active'' then \<not> completed t
      else if f = js ''completed'' then completed t
      else True)"

text \<open>
  Letter case in Basic Latin and Latin-1: the capital letters are \<open>A\<close> to \<open>Z\<close> and
  U+00C0 to U+00DE without the multiplication sign U+00D7, and the small letter of a
  capital is 32 code units above it. Two code units are the same letter when they are
  equal or one is the small letter of the other. The search term occurs in \<open>s\<close>,
  ignoring letter case, when some run of consecutive code units of \<open>s\<close> has the length
  of the term and agrees with it letter by letter.
\<close>

definition isLatin1 :: "js_string \<Rightarrow> bool" where
  "isLatin1 s = list_all (\<lambda>c. c \<le> 0xFF) s"

definition isCapitalLatin1 :: "code_unit \<Rightarrow> bool" where
  "isCapitalLatin1 c \<longleftrightarrow>
     0x41 \<le> c \<and> c \<le> 0x5A \<or> 0xC0 \<le> c \<and> c \<le> 0xDE \<and> c \<noteq> 0xD7"

definition sameLetter :: "code_unit \<Rightarrow> code_unit \<Rightarrow> bool" where
  "sameLetter a b \<longleftrightarrow>
     a = b \<or> isCapitalLatin1 a \<and> b = a + 0x20 \<or> isCapitalLatin1 b \<and> a = b + 0x20"

definition occursIgnoringCase :: "js_string \<Rightarrow> js_string \<Rightarrow> bool" where
  "occursIgnoringCase term s \<longleftrightarrow> (\<exists>u. sublist u s \<and> list_all2 sameLetter u term)"

text \<open>Every code unit brought to its small letter, for the proofs.\<close>

definition foldLatin1 :: "code_unit \<Rightarrow> code_unit" where
  "foldLatin1 c = (if isCapitalLatin1 c then c + 0x20 else c)"

text \<open>
  JSON values without numbers: the values the task manager writes. The text of such a
  value starts with a quote, a bracket, a brace or the first letter of a literal.
\<close>

fun numberFree :: "json \<Rightarrow> bool" where
  "numberFree (JNum n) = False"
| "numberFree (JArr vs) = list_all numberFree vs"
| "numberFree (JObj ms) = list_all (\<lambda>m. numberFree (snd m)) ms"
| "numberFree _ = True"

definition valueStart :: "code_unit \<Rightarrow> bool" where
  "valueStart c \<longleftrightarrow> c = 0x22 \<or> c = 0x5B \<or> c = 0x7B \<or> c = 0x6E \<or> c = 0x74 \<or> c = 0x66"

text \<open>
  A reader \<open>p\<close> reads \<open>x\<close> from the text \<open>s\<close> and leaves \<open>r\<close>, with any fuel
  from the number of code units it takes on.
\<close>

definition adequate ::
  "(nat \<Rightarrow> js_string \<Rightarrow> ('a \<times> js_string) option) \<Rightarrow> js_string \<Rightarrow> 'a \<Rightarrow> js_string \<Rightarrow> bool" where
  "adequate p s x r \<longleftrightarrow>
     length r < length s \<and> (\<forall>n. length s - length r \<le> n \<longrightarrow> p n s = Some (x, r))"

section \<open>Strings\<close>

lemmas demo_defs = demoStore_def addSamples_def emptyStore_def sampleTasks_def milkDraft_def

lemma dropWhile_all: "(\<forall>x\<in>set (dropWhile P xs). P x) \<longleftrightarrow> (\<forall>x\<in>set xs. P x)"
  by (induction xs) auto

lemma trim_Nil_iff: "trim s = [] \<longleftrightarrow> (\<forall>c\<in>set s. isWhiteSpace c)"
  by (simp add: trim_def dropWhile_all)

lemma capital_nat:
  "isCapitalLatin1 c \<longleftrightarrow>
     0x41 \<le> unat c \<and> unat c \<le> 0x5A \<or> 0xC0 \<le> unat c \<and> unat c \<le> 0xDE \<and> unat c \<noteq> 0xD7"
  by (simp add: isCapitalLatin1_def word_le_nat_alt word_unat_eq_iff)

lemma unat_small_letter: "isCapitalLatin1 c \<Longrightarrow> unat (c + 0x20) = unat c + 32"
  by (auto simp: capital_nat unat_word_ariths)

lemma small_not_capital: "isCapitalLatin1 c \<Longrightarrow> \<not> isCapitalLatin1 (c + 0x20)"
  using unat_small_letter [of c] by (auto simp: capital_nat)

lemma sameLetter_fold: "sameLetter a b \<longleftrightarrow> foldLatin1 a = foldLatin1 b"
proof (cases "isCapitalLatin1 a"; cases "isCapitalLatin1 b")
  assume "isCapitalLatin1 a" "isCapitalLatin1 b"
  then show ?thesis
    using small_not_capital [of a] small_not_capital [of b]
    by (auto simp: sameLetter_def foldLatin1_def)
next
  assume "isCapitalLatin1 a" "\<not> isCapitalLatin1 b"
  then show ?thesis
    by (auto simp: sameLetter_def foldLatin1_def)
next
  assume "\<not> isCapitalLatin1 a" "isCapitalLatin1 b"
  then show ?thesis
    by (auto simp: sameLetter_def foldLatin1_def)
next
  assume "\<not> isCapitalLatin1 a" "\<not> isCapitalLatin1 b"
  then show ?thesis
    by (auto simp: sameLetter_def foldLatin1_def)
qed

lemma codePoints_no_surrogate:
  "\<forall>c\<in>set s. \<not> isLeadSurrogate c \<Longrightarrow> stringToCodePoints s = map unat s"
  by (induction s rule: stringToCodePoints.induct) auto

lemma latin1_no_surrogate: "c \<le> 0xFF \<Longrightarrow> \<not> isLeadSurrogate c"
  by (auto simp: isLeadSurrogate_def word_le_nat_alt)

lemma lowerCodePoints_latin1:
  "\<forall>c\<in>set cs. c < 0x100 \<Longrightarrow> lowerCodePoints seen cs = map lowerLatin1 cs"
  by (induction cs arbitrary: seen) (auto simp: lowerCodePoint_def simpleLower_def)

lemma units_lowerLatin1:
  assumes "c \<le> 0xFF"
  shows "codePointToUnits (lowerLatin1 (unat c)) = [foldLatin1 c]"
proof -
  from assms have c: "unat c \<le> 0xFF"
    by (simp add: word_le_nat_alt)
  have "lowerLatin1 (unat c) = (if isCapitalLatin1 c then unat c + 32 else unat c)"
    by (simp add: lowerLatin1_def capital_nat)
  moreover have "(of_nat (unat c + 32) :: code_unit) = c + 0x20"
    by simp
  ultimately show ?thesis
    using c by (simp add: codePointToUnits_def foldLatin1_def del: of_nat_add)
qed

lemma toLowerCase_latin1:
  assumes "isLatin1 s"
  shows "toLowerCase s = map foldLatin1 s"
proof -
  from assms have l: "\<forall>c\<in>set s. c \<le> 0xFF"
    by (simp add: isLatin1_def list_all_iff)
  then have "stringToCodePoints s = map unat s"
    by (intro codePoints_no_surrogate) (simp add: latin1_no_surrogate)
  moreover from l have "\<forall>c\<in>set (map unat s). c < 0x100"
    by (auto simp: word_le_nat_alt)
  ultimately have "lowerCodePoints [] (stringToCodePoints s) = map lowerLatin1 (map unat s)"
    by (simp add: lowerCodePoints_latin1)
  then have "toLowerCase s = concat (map (\<lambda>c. codePointToUnits (lowerLatin1 (unat c))) s)"
    by (simp add: toLowerCase_def o_def)
  also have "\<dots> = concat (map (\<lambda>c. [foldLatin1 c]) s)"
    using l by (intro arg_cong [where f = concat] map_cong refl) (simp add: units_lowerLatin1)
  also have "\<dots> = map foldLatin1 s"
    by (induction s) simp_all
  finally show ?thesis .
qed

lemma toLowerCase_Nil [simp]: "toLowerCase [] = []"
  by (simp add: toLowerCase_def)

lemma codePoints_eq_Nil: "stringToCodePoints s = [] \<longleftrightarrow> s = []"
  by (induction s rule: stringToCodePoints.induct) auto

lemma lowerCodePoints_eq_Nil: "lowerCodePoints seen cs = [] \<longleftrightarrow> cs = []"
  by (cases cs) (auto simp: lowerCodePoint_def)

lemma units_eq_Nil: "concat (map codePointToUnits cs) = [] \<longleftrightarrow> cs = []"
  by (cases cs) (auto simp: codePointToUnits_def)

lemma toLowerCase_eq_Nil [simp]: "toLowerCase s = [] \<longleftrightarrow> s = []"
  unfolding toLowerCase_def units_eq_Nil lowerCodePoints_eq_Nil codePoints_eq_Nil ..

lemma includes_js_sublist: "includes_js s t \<longleftrightarrow> sublist t s"
  by (induction s) (simp_all add: sublist_Cons_right)

lemma sublist_map_iff:
  "sublist (map f t) (map f s) \<longleftrightarrow> (\<exists>u. sublist u s \<and> map f u = map f t)"
proof
  assume "sublist (map f t) (map f s)"
  then obtain ps ss where "map f s = ps @ map f t @ ss"
    by (auto simp: sublist_def)
  then obtain s1 s2 where s12: "s = s1 @ s2" "map f t @ ss = map f s2"
    by (auto simp: map_eq_append_conv)
  then obtain u s3 where "s2 = u @ s3" "map f u = map f t"
    by (auto simp: append_eq_map_conv)
  with s12 have "s = s1 @ u @ s3" "map f u = map f t"
    by simp_all
  then show "\<exists>u. sublist u s \<and> map f u = map f t"
    by auto
next
  assume "\<exists>u. sublist u s \<and> map f u = map f t"
  then obtain u ps ss where "s = ps @ u @ ss" "map f u = map f t"
    by (auto simp: sublist_def)
  then have "map f s = map f ps @ map f t @ map f ss"
    by simp
  then show "sublist (map f t) (map f s)"
    unfolding sublist_def by blast
qed

lemma map_eq_list_all2: "map f xs = map f ys \<longleftrightarrow> list_all2 (\<lambda>a b. f a = f b) xs ys"
proof (induction xs arbitrary: ys)
  case Nil
  show ?case by simp
next
  case (Cons x xs)
  then show ?case by (cases ys) simp_all
qed

lemma occursIgnoringCase_fold:
  "occursIgnoringCase term s \<longleftrightarrow> sublist (map foldLatin1 term) (map foldLatin1 s)"
proof -
  have "sameLetter = (\<lambda>a b. foldLatin1 a = foldLatin1 b)"
    by (intro ext) (rule sameLetter_fold)
  then show ?thesis
    by (simp add: occursIgnoringCase_def sublist_map_iff map_eq_list_all2)
qed

lemma occursIgnoringCase_code:
  "occursIgnoringCase term s \<longleftrightarrow> includes_js (map foldLatin1 s) (map foldLatin1 term)"
  by (simp add: occursIgnoringCase_fold includes_js_sublist)

lemma occursIgnoringCase_latin1:
  "isLatin1 term \<Longrightarrow> isLatin1 s \<Longrightarrow>
   occursIgnoringCase term s \<longleftrightarrow> sublist (toLowerCase term) (toLowerCase s)"
  by (simp add: occursIgnoringCase_fold toLowerCase_latin1)

lemma js_filter_names [simp]:
  "js ''completed'' \<noteq> js ''active''" "js ''all'' \<noteq> js ''active''"
  "js ''all'' \<noteq> js ''completed''"
  by (simp_all add: js_def)

section \<open>Reading back what \<open>JSON.stringify\<close> wrote\<close>

subsection \<open>Strings\<close>

lemma unat_hexDigit: "k < 16 \<Longrightarrow> unat (hexDigit k) = (if k < 10 then 48 + k else 87 + k)"
  by (cases "k < 10") (simp_all add: hexDigit_def unat_of_nat del: of_nat_add)

lemma hexValue_hexDigit: "k < 16 \<Longrightarrow> hexValue (hexDigit k) = Some k"
  by (simp add: hexValue_def word_le_nat_alt unat_hexDigit)

lemma hex_arith:
  "((n div 4096 * 16 + n div 256 mod 16) * 16 + n div 16 mod 16) * 16 + n mod 16 = (n::nat)"
proof -
  have "n div 256 = n div 16 div 16" "n div 4096 = n div 16 div 16 div 16"
    by (simp_all add: div_mult2_eq)
  then show ?thesis
    by simp
qed

lemma parseHex4_digits:
  assumes "a < 16" "b < 16" "c < 16" "d < 16"
  shows "parseHex4 [hexDigit a, hexDigit b, hexDigit c, hexDigit d] =
     Some (of_nat (((a * 16 + b) * 16 + c) * 16 + d))"
  using assms by (simp only: parseHex4.simps hexValue_hexDigit prod.case option.case)

lemma parseHex4_hex4: "parseHex4 (hex4 c) = Some c"
proof -
  define n where "n = unat c"
  have "n < 65536"
    using unsigned_less [of c, where 'a = nat] by (simp add: n_def)
  then have "n div 4096 < 16"
    by simp
  then have "parseHex4 (hex4 c) =
      Some (of_nat (((n div 4096 * 16 + n div 256 mod 16) * 16 + n div 16 mod 16) * 16 + n mod 16))"
    unfolding hex4_def n_def [symmetric] by (intro parseHex4_digits) simp_all
  also have "\<dots> = Some (of_nat n)"
    by (simp only: hex_arith)
  finally show ?thesis
    by (simp add: n_def)
qed

lemma length_hex4 [simp]: "length (hex4 c) = 4"
  by (simp add: hex4_def)

lemma parseChars_unicode:
  "parseChars (0x5C # 0x75 # hex4 c @ r) = map_option (apfst ((#) c)) (parseChars r)"
  by (simp add: parseHex4_hex4)

lemma parseChars_plain:
  "c \<noteq> 0x22 \<Longrightarrow> c \<noteq> 0x5C \<Longrightarrow> \<not> c < 0x20 \<Longrightarrow>
   parseChars (c # r) = map_option (apfst ((#) c)) (parseChars r)"
  by simp

lemma surrogate_plain:
  "isLeadSurrogate c \<or> isTrailSurrogate c \<Longrightarrow> c \<noteq> 0x22 \<and> c \<noteq> 0x5C \<and> \<not> c < 0x20"
  by (auto simp: isLeadSurrogate_def isTrailSurrogate_def word_le_nat_alt word_less_nat_alt)

lemma parseChars_quoteUnit:
  "parseChars (quoteUnit c @ r) = map_option (apfst ((#) c)) (parseChars r)"
proof (cases "c = 0x08 \<or> c = 0x09 \<or> c = 0x0A \<or> c = 0x0C \<or> c = 0x0D \<or> c = 0x22 \<or> c = 0x5C")
  case True
  then show ?thesis
    by (elim disjE) (simp_all add: quoteUnit_def unescape_def)
next
  case False
  then have ne: "c \<noteq> 0x08" "c \<noteq> 0x09" "c \<noteq> 0x0A" "c \<noteq> 0x0C" "c \<noteq> 0x0D" "c \<noteq> 0x22" "c \<noteq> 0x5C"
    by simp_all
  show ?thesis
  proof (cases "c < 0x20 \<or> isLeadSurrogate c \<or> isTrailSurrogate c")
    case True
    with ne have "quoteUnit c = [0x5C, 0x75] @ hex4 c"
      by (simp add: quoteUnit_def)
    then show ?thesis
      by (simp add: parseChars_unicode del: parseChars.simps)
  next
    case False
    with ne have "quoteUnit c = [c]"
      by (simp add: quoteUnit_def)
    moreover from False have "\<not> c < 0x20"
      by simp
    ultimately show ?thesis
      using ne by (simp add: parseChars_plain del: parseChars.simps)
  qed
qed

lemma parseChars_quoteUnits: "parseChars (quoteUnits s @ 0x22 # r) = Some (s, r)"
proof (induction s rule: quoteUnits.induct)
  case 1
  show ?case by simp
next
  case (2 c)
  show ?case
    using parseChars_quoteUnit [of c "0x22 # r"] by simp
next
  case (3 c d s)
  show ?case
  proof (cases "isLeadSurrogate c \<and> isTrailSurrogate d")
    case True
    then have "parseChars (c # d # quoteUnits s @ 0x22 # r)
        = map_option (apfst ((#) c))
            (map_option (apfst ((#) d)) (parseChars (quoteUnits s @ 0x22 # r)))"
      using surrogate_plain [of c] surrogate_plain [of d]
      by (simp add: parseChars_plain del: parseChars.simps)
    with True 3 show ?thesis
      by (simp del: parseChars.simps)
  next
    case False
    then have "quoteUnits (c # d # s) = quoteUnit c @ quoteUnits (d # s)"
      by auto
    with False 3 show ?thesis
      by (simp add: parseChars_quoteUnit del: parseChars.simps quoteUnits.simps)
  qed
qed

subsection \<open>Values\<close>

lemma skipWS_Cons: "\<not> isJSONWhiteSpace c \<Longrightarrow> skipWS (c # s) = c # s"
  by (simp add: skipWS_def)

lemma valueStart_not_space: "valueStart c \<Longrightarrow> \<not> isJSONWhiteSpace c"
  by (auto simp: valueStart_def isJSONWhiteSpace_def)

lemma stringify_start:
  "numberFree j \<Longrightarrow> \<exists>c t. JSON_stringify j = c # t \<and> valueStart c"
  by (cases j) (simp_all add: js_def quoteJSONString_def valueStart_def)

lemma skipWS_stringify: "numberFree j \<Longrightarrow> skipWS (JSON_stringify j @ r) = JSON_stringify j @ r"
  using stringify_start [of j] by (auto simp: skipWS_Cons valueStart_not_space)

lemma joinComma_Cons: "xs \<noteq> [] \<Longrightarrow> joinComma (x # xs) = x @ 0x2C # joinComma xs"
  by (cases xs) simp_all

lemma parseElements_last:
  "parseValue k (skipWS s) = Some (v, 0x5D # r) \<Longrightarrow> parseElements (Suc k) s = Some ([v], r)"
  by (simp add: skipWS_Cons isJSONWhiteSpace_def)

lemma parseElements_more:
  "parseValue k (skipWS s) = Some (v, 0x2C # t) \<Longrightarrow> parseElements k t = Some (vs, r) \<Longrightarrow>
   parseElements (Suc k) s = Some (v # vs, r)"
  by (simp add: skipWS_Cons isJSONWhiteSpace_def)

lemma parseMembers_key:
  "parseMembers (Suc n) (quoteJSONString k @ 0x3A # t) =
     (case parseValue n (skipWS t) of
        None \<Rightarrow> None
      | Some (v, r') \<Rightarrow>
          (case skipWS r' of
             [] \<Rightarrow> None
           | d # ds \<Rightarrow>
               if d = 0x2C then map_option (apfst ((#) (k, v))) (parseMembers n ds)
               else if d = 0x7D then Some ([(k, v)], ds)
               else None))"
  by (simp add: quoteJSONString_def skipWS_Cons isJSONWhiteSpace_def parseChars_quoteUnits
      del: parseChars.simps)

lemma parseMembers_last:
  "parseValue n (skipWS t) = Some (v, 0x7D # r) \<Longrightarrow>
   parseMembers (Suc n) (quoteJSONString k @ 0x3A # t) = Some ([(k, v)], r)"
  by (simp add: parseMembers_key skipWS_Cons isJSONWhiteSpace_def del: parseMembers.simps)

lemma parseMembers_more:
  "parseValue n (skipWS t) = Some (v, 0x2C # u) \<Longrightarrow> parseMembers n u = Some (ms, r) \<Longrightarrow>
   parseMembers (Suc n) (quoteJSONString k @ 0x3A # t) = Some ((k, v) # ms, r)"
  by (simp add: parseMembers_key skipWS_Cons isJSONWhiteSpace_def del: parseMembers.simps)

lemma parseElements_joinComma:
  assumes IH: "\<And>v n r. v \<in> set vs \<Longrightarrow> length (JSON_stringify v) \<le> n \<Longrightarrow>
      parseValue n (JSON_stringify v @ r) = Some (v, r)"
    and nf: "list_all numberFree vs" and ne: "vs \<noteq> []"
    and fuel: "length (joinComma (map JSON_stringify vs)) < k"
  shows "parseElements k (joinComma (map JSON_stringify vs) @ 0x5D # r) = Some (vs, r)"
  using ne IH nf fuel
proof (induction vs arbitrary: k rule: list_nonempty_induct)
  case (single v)
  from single.prems(3) obtain k' where k: "k = Suc k'" "length (JSON_stringify v) \<le> k'"
    by (cases k) auto
  from single.prems(2) have "numberFree v"
    by simp
  then have "parseValue k' (skipWS (JSON_stringify v @ 0x5D # r)) = Some (v, 0x5D # r)"
    using single.prems(1) [of v k' "0x5D # r"] k by (simp add: skipWS_stringify)
  then show ?case
    using k by (simp add: parseElements_last del: parseElements.simps)
next
  case (cons v vs)
  let ?rest = "joinComma (map JSON_stringify vs)"
  have shape: "joinComma (map JSON_stringify (v # vs)) = JSON_stringify v @ 0x2C # ?rest"
    using cons.hyps by (simp add: joinComma_Cons)
  with cons.prems(3) obtain k' where k: "k = Suc k'" "length (JSON_stringify v) \<le> k'"
      "length ?rest < k'"
    by (cases k) auto
  from cons.prems(2) have nf: "numberFree v" "list_all numberFree vs"
    by simp_all
  have first: "parseValue k' (skipWS (JSON_stringify v @ 0x2C # ?rest @ 0x5D # r))
      = Some (v, 0x2C # ?rest @ 0x5D # r)"
    using cons.prems(1) [of v k' "0x2C # ?rest @ 0x5D # r"] k nf by (simp add: skipWS_stringify)
  have others: "parseElements k' (?rest @ 0x5D # r) = Some (vs, r)"
    using cons.IH [of k'] cons.prems(1) nf k by simp
  from parseElements_more [OF first others] show ?case
    using k shape by simp
qed

lemma stringify_JObj:
  "JSON_stringify (JObj ms) =
     0x7B # joinComma (map (\<lambda>m. quoteJSONString (fst m) @ 0x3A # JSON_stringify (snd m)) ms) @ [0x7D]"
  by (simp add: memberText_def o_def)

lemma parseMembers_joinComma:
  assumes IH: "\<And>m n r. m \<in> set ms \<Longrightarrow> length (JSON_stringify (snd m)) \<le> n \<Longrightarrow>
      parseValue n (JSON_stringify (snd m) @ r) = Some (snd m, r)"
    and nf: "list_all (\<lambda>m. numberFree (snd m)) ms" and ne: "ms \<noteq> []"
    and fuel: "length (joinComma (map (\<lambda>m. quoteJSONString (fst m) @ 0x3A # JSON_stringify (snd m)) ms)) < k"
  shows "parseMembers k
       (joinComma (map (\<lambda>m. quoteJSONString (fst m) @ 0x3A # JSON_stringify (snd m)) ms) @ 0x7D # r)
     = Some (ms, r)"
  using ne IH nf fuel
proof (induction ms arbitrary: k rule: list_nonempty_induct)
  case (single m)
  obtain key v where m: "m = (key, v)"
    by (cases m)
  from single.prems(3) obtain k' where k: "k = Suc k'" "length (JSON_stringify v) \<le> k'"
    by (cases k) (auto simp: m)
  from single.prems(2) have "numberFree v"
    by (simp add: m)
  then have "parseValue k' (skipWS (JSON_stringify v @ 0x7D # r)) = Some (v, 0x7D # r)"
    using single.prems(1) [of m k' "0x7D # r"] k by (simp add: skipWS_stringify m)
  from parseMembers_last [OF this, of key] show ?case
    using k by (simp add: m)
next
  case (cons m ms)
  obtain key v where m: "m = (key, v)"
    by (cases m)
  let ?T = "\<lambda>m. quoteJSONString (fst m) @ 0x3A # JSON_stringify (snd m)"
  let ?rest = "joinComma (map ?T ms)"
  have shape: "joinComma (map ?T (m # ms))
      = quoteJSONString key @ 0x3A # JSON_stringify v @ 0x2C # ?rest"
    using cons.hyps by (simp add: joinComma_Cons m)
  have "length (JSON_stringify v) + length ?rest + 1 < k"
    using cons.prems(3) unfolding shape by simp
  then obtain k' where k: "k = Suc k'" "length (JSON_stringify v) \<le> k'" "length ?rest < k'"
    by (cases k) auto
  from cons.prems(2) have nf: "numberFree v" "list_all (\<lambda>m. numberFree (snd m)) ms"
    by (simp_all add: m)
  have first: "parseValue k' (skipWS (JSON_stringify v @ 0x2C # ?rest @ 0x7D # r))
      = Some (v, 0x2C # ?rest @ 0x7D # r)"
    using cons.prems(1) [of m k' "0x2C # ?rest @ 0x7D # r"] k nf by (simp add: skipWS_stringify m)
  have others: "parseMembers k' (?rest @ 0x7D # r) = Some (ms, r)"
    using cons.IH [of k'] cons.prems(1) nf k by simp
  from parseMembers_more [OF first others, of key] show ?case
    unfolding shape using k m by simp
qed

lemma parseValue_stringify:
  "numberFree j \<Longrightarrow> length (JSON_stringify j) \<le> n \<Longrightarrow>
   parseValue n (JSON_stringify j @ r) = Some (j, r)"
proof (induction j arbitrary: n r)
  case JNull
  then obtain k where "n = Suc k"
    by (cases n) (auto simp: js_def)
  then show ?case
    by (simp add: js_def)
next
  case (JBool b)
  then obtain k where "n = Suc k"
    by (cases n; cases b) (auto simp: js_def)
  then show ?case
    by (cases b) (simp_all add: js_def)
next
  case (JNum x)
  then show ?case by simp
next
  case (JStr s)
  then obtain k where "n = Suc k"
    by (cases n) (auto simp: quoteJSONString_def)
  then show ?case
    by (simp add: quoteJSONString_def parseChars_quoteUnits del: parseChars.simps)
next
  case (JArr vs)
  let ?body = "joinComma (map JSON_stringify vs)"
  from JArr.prems(2) obtain k where k: "n = Suc k" "length ?body < k"
    by (cases n) auto
  show ?case
  proof (cases "vs = []")
    case True
    then show ?thesis
      using k by (simp add: skipWS_Cons isJSONWhiteSpace_def)
  next
    case False
    then obtain v ws where vs: "vs = v # ws"
      by (cases vs) auto
    with JArr.prems(1) have "numberFree v"
      by simp
    from stringify_start [OF this] obtain c t where ct: "JSON_stringify v = c # t" "valueStart c"
      by auto
    have "\<exists>t'. ?body = c # t'"
      by (cases ws) (simp_all add: vs ct)
    then obtain t' where body: "?body = c # t'" ..
    have c: "\<not> isJSONWhiteSpace c" "c \<noteq> 0x5D"
      using ct(2) by (auto simp: valueStart_def isJSONWhiteSpace_def)
    have nf: "list_all numberFree vs"
      using JArr.prems(1) by simp
    have elems: "parseElements k (?body @ 0x5D # r) = Some (vs, r)"
    proof (rule parseElements_joinComma [OF _ nf False k(2)])
      fix v n r
      assume "v \<in> set vs" "length (JSON_stringify v) \<le> n"
      moreover from \<open>v \<in> set vs\<close> nf have "numberFree v"
        by (simp add: list_all_iff)
      ultimately show "parseValue n (JSON_stringify v @ r) = Some (v, r)"
        by (intro JArr.IH)
    qed
    have "parseValue (Suc k) (0x5B # ?body @ 0x5D # r) = Some (JArr vs, r)"
      using elems c unfolding body by (simp add: skipWS_Cons del: parseElements.simps)
    then show ?thesis
      using k by simp
  qed
next
  case (JObj ms)
  let ?T = "\<lambda>m. quoteJSONString (fst m) @ 0x3A # JSON_stringify (snd m)"
  let ?body = "joinComma (map ?T ms)"
  from JObj.prems(2) obtain k where k: "n = Suc k" "length ?body < k"
    unfolding stringify_JObj by (cases n) auto
  show ?case
  proof (cases "ms = []")
    case True
    then show ?thesis
      using k by (simp add: skipWS_Cons isJSONWhiteSpace_def)
  next
    case False
    then obtain m ws where ms: "ms = m # ws"
      by (cases ms) auto
    have "\<exists>t'. ?body = 0x22 # t'"
      by (cases ws) (simp_all add: ms quoteJSONString_def)
    then obtain t' where body: "?body = 0x22 # t'" ..
    have IH: "\<And>m n r. m \<in> set ms \<Longrightarrow> numberFree (snd m) \<Longrightarrow> length (JSON_stringify (snd m)) \<le> n \<Longrightarrow>
        parseValue n (JSON_stringify (snd m) @ r) = Some (snd m, r)"
    proof -
      fix m :: "js_string \<times> json" and n r
      assume "m \<in> set ms" "numberFree (snd m)" "length (JSON_stringify (snd m)) \<le> n"
      then show "parseValue n (JSON_stringify (snd m) @ r) = Some (snd m, r)"
        using JObj.IH [of m "snd m" n r] by (simp add: Basic_BNFs.snds.intros)
    qed
    have nf: "list_all (\<lambda>m. numberFree (snd m)) ms"
      using JObj.prems(1) by simp
    have members: "parseMembers k (?body @ 0x7D # r) = Some (ms, r)"
    proof (rule parseMembers_joinComma [OF _ nf False k(2)])
      fix m :: "js_string \<times> json" and n r
      assume "m \<in> set ms" "length (JSON_stringify (snd m)) \<le> n"
      moreover from \<open>m \<in> set ms\<close> nf have "numberFree (snd m)"
        by (simp add: list_all_iff)
      ultimately show "parseValue n (JSON_stringify (snd m) @ r) = Some (snd m, r)"
        by (intro IH)
    qed
    have "parseValue (Suc k) (0x7B # ?body @ 0x7D # r) = Some (JObj ms, r)"
      using members unfolding body
      by (simp add: skipWS_Cons isJSONWhiteSpace_def del: parseMembers.simps)
    then show ?thesis
      unfolding stringify_JObj using k by simp
  qed
qed

lemma JSON_parse_stringify: "numberFree j \<Longrightarrow> JSON_parse (JSON_stringify j) = Some j"
  using parseValue_stringify [of j "Suc (length (JSON_stringify j))" "[]"]
    skipWS_stringify [of j "[]"]
  by (simp add: JSON_parse_def skipWS_def del: parseValue.simps)

subsection \<open>The fuel is enough\<close>

text \<open>
  Whatever the readers read with some fuel, they read with the fuel \<open>JSON.parse\<close>
  gives them: \<open>None\<close> from \<open>JSON_parse\<close> always means that the text is not JSON.
\<close>

lemma length_skipWS: "length (skipWS s) \<le> length s"
  by (simp add: skipWS_def length_dropWhile_le)

lemma parseChars_shorter: "parseChars s = Some (x, r) \<Longrightarrow> length r < length s"
proof (induction s arbitrary: x rule: parseChars.induct)
  case 1
  then show ?case by simp
next
  case (2 c cs)
  show ?case
  proof (cases "c = 0x22")
    case True
    with "2.prems" show ?thesis by simp
  next
    case q: False
    show ?thesis
    proof (cases "c = 0x5C")
      case False
      with q 2 show ?thesis
        by (auto split: if_splits)
    next
      case True
      with q "2.prems" obtain e es where cs: "cs = e # es"
        by (cases cs) auto
      show ?thesis
      proof (cases "e = 0x75")
        case u: True
        with q True cs "2.prems" obtain w y where
          "parseHex4 (take 4 es) = Some w" "parseChars (drop 4 es) = Some (y, r)"
          by (auto split: option.splits)
        with "2.IH"(1) [OF q True cs u this(1)] have "length r < length (drop 4 es)"
          by simp
        then show ?thesis
          using cs by simp
      next
        case nu: False
        with q True cs "2.prems" obtain w y where
          "unescape e = Some w" "parseChars es = Some (y, r)"
          by (auto split: option.splits)
        with "2.IH"(2) [OF q True cs nu this(1)] have "length r < length es"
          by simp
        then show ?thesis
          using cs by simp
      qed
    qed
  qed
qed

lemma parseInt_shorter: "parseInt s = Some (i, r) \<Longrightarrow> length r < length s"
  by (auto simp: parseInt_def less_Suc_eq_le length_dropWhile_le split: list.splits if_splits)

lemma parseFrac_shorter: "parseFrac s = Some (f, r) \<Longrightarrow> length r \<le> length s"
  by (auto simp: parseFrac_def le_SucI length_dropWhile_le split: list.splits if_splits)

lemma parseSign_shorter: "parseSign s = (sg, r) \<Longrightarrow> length r \<le> length s"
  by (auto simp: parseSign_def split: list.splits if_splits)

lemma parseExp_shorter: "parseExp s = Some (e, r) \<Longrightarrow> length r \<le> length s"
proof (cases s)
  case Nil
  then show "parseExp s = Some (e, r) \<Longrightarrow> length r \<le> length s"
    by (simp add: parseExp_def)
next
  case (Cons c cs)
  assume p: "parseExp s = Some (e, r)"
  show "length r \<le> length s"
  proof (cases "c = 0x65 \<or> c = 0x45")
    case False
    with p Cons show ?thesis
      by (simp add: parseExp_def)
  next
    case True
    obtain sg ds where sg: "parseSign cs = (sg, ds)"
      by (cases "parseSign cs")
    with p Cons True have "r = dropWhile isDigit ds"
      by (auto simp: parseExp_def split: if_splits)
    then have "length r \<le> length ds"
      by (simp add: length_dropWhile_le)
    with parseSign_shorter [OF sg] Cons show ?thesis
      by simp
  qed
qed

lemma parseNumber_shorter:
  assumes "parseNumber s = Some (v, r)"
  shows "length r < length s"
proof -
  obtain neg s1 where n: "(case s of [] \<Rightarrow> ([], s) | c # cs \<Rightarrow> if c = 0x2D then ([c], cs) else ([], s)) = (neg, s1)"
    by (cases "(case s of [] \<Rightarrow> ([], s) | c # cs \<Rightarrow> if c = 0x2D then ([c], cs) else ([], s))")
  then have l1: "length s1 \<le> length s"
    by (auto split: list.splits if_splits)
  from assms n obtain i s2 f s3 e where
    "parseInt s1 = Some (i, s2)" "parseFrac s2 = Some (f, s3)" "parseExp s3 = Some (e, r)"
    by (auto simp: parseNumber_def split: option.splits)
  from parseInt_shorter [OF this(1)] parseFrac_shorter [OF this(2)] parseExp_shorter [OF this(3)] l1
  show ?thesis
    by simp
qed

lemma adequateI:
  assumes "length r < length s"
    and "\<And>n. length s - length r \<le> Suc n \<Longrightarrow> p (Suc n) s = Some (x, r)"
  shows "adequate p s x r"
  unfolding adequate_def
proof (intro conjI allI impI)
  show "length r < length s" by fact
  fix n assume n: "length s - length r \<le> n"
  with assms(1) obtain k where "n = Suc k"
    by (cases n) auto
  with n assms(2) show "p n s = Some (x, r)"
    by simp
qed

lemma adequateD:
  "adequate p s x r \<Longrightarrow> length s - length r \<le> n \<Longrightarrow> p n s = Some (x, r)"
  by (simp add: adequate_def)

lemma adequate_shorter: "adequate p s x r \<Longrightarrow> length r < length s"
  by (simp add: adequate_def)

lemma parseValue_step:
  assumes p: "parseValue (Suc m) s = Some (v, r)"
    and M: "\<And>t ms. parseMembers m t = Some (ms, r) \<Longrightarrow> adequate parseMembers t ms r"
    and E: "\<And>t vs. parseElements m t = Some (vs, r) \<Longrightarrow> adequate parseElements t vs r"
  shows "adequate parseValue s v r"
proof -
  from p obtain c cs where s: "s = c # cs"
    by (cases s) auto
  show ?thesis
  proof (cases "c = 0x7B")
    case True
    with p s obtain d ds where d: "skipWS cs = d # ds"
      by (cases "skipWS cs") auto
    have len: "length (d # ds) \<le> length cs"
      using length_skipWS [of cs] d by simp
    show ?thesis
    proof (cases "d = 0x7D")
      case close: True
      with p s True d have "v = JObj []" "r = ds"
        by auto
      with s True d close len show ?thesis
        by (intro adequateI) auto
    next
      case False
      with p s True d obtain ms where ms: "parseMembers m (d # ds) = Some (ms, r)" "v = JObj ms"
        by auto
      from M [OF ms(1)] have a: "adequate parseMembers (d # ds) ms r" .
      show ?thesis
      proof (rule adequateI)
        show "length r < length s"
          using adequate_shorter [OF a] len s by simp
        fix n assume "length s - length r \<le> Suc n"
        with len s have "length (d # ds) - length r \<le> n"
          by simp
        from adequateD [OF a this] show "parseValue (Suc n) s = Some (v, r)"
          using s True d False ms(2) by simp
      qed
    qed
  next
    case nobrace: False
    show ?thesis
    proof (cases "c = 0x5B")
      case True
      with p s obtain d ds where d: "skipWS cs = d # ds"
        by (cases "skipWS cs") auto
      have len: "length (d # ds) \<le> length cs"
        using length_skipWS [of cs] d by simp
      show ?thesis
      proof (cases "d = 0x5D")
        case close: True
        with p s True d have "v = JArr []" "r = ds"
          by auto
        with s True d close len show ?thesis
          by (intro adequateI) auto
      next
        case False
        with p s True d obtain vs where vs: "parseElements m (d # ds) = Some (vs, r)" "v = JArr vs"
          by auto
        from E [OF vs(1)] have a: "adequate parseElements (d # ds) vs r" .
        show ?thesis
        proof (rule adequateI)
          show "length r < length s"
            using adequate_shorter [OF a] len s by simp
          fix n assume "length s - length r \<le> Suc n"
          with len s have "length (d # ds) - length r \<le> n"
            by simp
          from adequateD [OF a this] show "parseValue (Suc n) s = Some (v, r)"
            using s True d False vs(2) by simp
        qed
      qed
    next
      case nobracket: False
      have indep: "parseValue (Suc n) s = parseValue (Suc m) s" for n
        using s nobrace nobracket by simp
      have "length r < length s"
      proof (cases "c = 0x22")
        case True
        with p s nobrace nobracket obtain x where "parseChars cs = Some (x, r)"
          by auto
        from parseChars_shorter [OF this] s show ?thesis
          by simp
      next
        case False
        with p s nobrace nobracket show ?thesis
          by (auto simp: js_def prefix_def dest: parseNumber_shorter split: if_splits)
      qed
      then show ?thesis
        using indep p by (intro adequateI) simp_all
    qed
  qed
qed

lemma parseElements_step:
  assumes p: "parseElements (Suc m) s = Some (vs, r)"
    and V: "\<And>t v r'. parseValue m t = Some (v, r') \<Longrightarrow> adequate parseValue t v r'"
    and E: "\<And>t ws. parseElements m t = Some (ws, r) \<Longrightarrow> adequate parseElements t ws r"
  shows "adequate parseElements s vs r"
proof -
  from p obtain v r1 where pv: "parseValue m (skipWS s) = Some (v, r1)"
    by (auto split: option.splits)
  with p obtain d ds where d: "skipWS r1 = d # ds"
    by (cases "skipWS r1") auto
  from V [OF pv] have a1: "adequate parseValue (skipWS s) v r1" .
  have l1: "length r1 < length (skipWS s)" "length (skipWS s) \<le> length s"
      "Suc (length ds) \<le> length r1"
    using adequate_shorter [OF a1] length_skipWS [of s] length_skipWS [of r1] d by simp_all
  show ?thesis
  proof (cases "d = 0x2C")
    case True
    with p pv d obtain ws where ws: "parseElements m ds = Some (ws, r)" "vs = v # ws"
      by auto
    from E [OF ws(1)] have a2: "adequate parseElements ds ws r" .
    have l2: "length r < length ds"
      using adequate_shorter [OF a2] .
    show ?thesis
    proof (rule adequateI)
      show "length r < length s"
        using l1 l2 by simp
      fix n assume "length s - length r \<le> Suc n"
      with l1 l2 have "length (skipWS s) - length r1 \<le> n" "length ds - length r \<le> n"
        by simp_all
      from adequateD [OF a1 this(1)] adequateD [OF a2 this(2)]
      show "parseElements (Suc n) s = Some (vs, r)"
        using d True ws(2) by simp
    qed
  next
    case False
    with p pv d have last: "d = 0x5D" "vs = [v]" "r = ds"
      by (auto split: if_splits)
    show ?thesis
    proof (rule adequateI)
      show "length r < length s"
        using l1 last by simp
      fix n assume "length s - length r \<le> Suc n"
      with l1 last have "length (skipWS s) - length r1 \<le> n"
        by simp
      from adequateD [OF a1 this]
      show "parseElements (Suc n) s = Some (vs, r)"
        using d last by simp
    qed
  qed
qed

lemma parseMembers_step:
  assumes p: "parseMembers (Suc m) s = Some (ms, r)"
    and V: "\<And>t v r'. parseValue m t = Some (v, r') \<Longrightarrow> adequate parseValue t v r'"
    and M: "\<And>t ws. parseMembers m t = Some (ws, r) \<Longrightarrow> adequate parseMembers t ws r"
  shows "adequate parseMembers s ms r"
proof -
  from p obtain q ks where q: "skipWS s = q # ks"
    by (cases "skipWS s") auto
  with p have quote: "q = 0x22"
    by (auto split: if_splits)
  with p q obtain k r0 where k: "parseChars ks = Some (k, r0)"
    by (auto split: option.splits)
  with p q quote obtain c cs where c: "skipWS r0 = c # cs"
    by (cases "skipWS r0") auto
  with p q quote k have colon: "c = 0x3A"
    by (auto split: if_splits)
  with p q quote k c obtain v r1 where pv: "parseValue m (skipWS cs) = Some (v, r1)"
    by (auto split: option.splits)
  with p q quote k c colon obtain d ds where d: "skipWS r1 = d # ds"
    by (cases "skipWS r1") auto
  from V [OF pv] have a1: "adequate parseValue (skipWS cs) v r1" .
  have l1: "length r1 < length (skipWS cs)" "length (skipWS cs) \<le> length cs"
      "Suc (length ds) \<le> length r1" "Suc (length cs) \<le> length r0"
      "length r0 < length ks" "Suc (length ks) \<le> length s"
    using adequate_shorter [OF a1] length_skipWS [of cs] length_skipWS [of r1] d
      length_skipWS [of r0] c parseChars_shorter [OF k] length_skipWS [of s] q
    by simp_all
  show ?thesis
  proof (cases "d = 0x2C")
    case True
    with p q quote k c colon pv d obtain ws where
      ws: "parseMembers m ds = Some (ws, r)" "ms = (k, v) # ws"
      by auto
    from M [OF ws(1)] have a2: "adequate parseMembers ds ws r" .
    have l2: "length r < length ds"
      using adequate_shorter [OF a2] .
    show ?thesis
    proof (rule adequateI)
      show "length r < length s"
        using l1 l2 by simp
      fix n assume "length s - length r \<le> Suc n"
      with l1 l2 have "length (skipWS cs) - length r1 \<le> n" "length ds - length r \<le> n"
        by simp_all
      from adequateD [OF a1 this(1)] adequateD [OF a2 this(2)]
      show "parseMembers (Suc n) s = Some (ms, r)"
        using q quote k c colon d True ws(2) by simp
    qed
  next
    case False
    with p q quote k c colon pv d have last: "d = 0x7D" "ms = [(k, v)]" "r = ds"
      by (auto split: if_splits)
    show ?thesis
    proof (rule adequateI)
      show "length r < length s"
        using l1 last by simp
      fix n assume "length s - length r \<le> Suc n"
      with l1 last have "length (skipWS cs) - length r1 \<le> n"
        by simp
      from adequateD [OF a1 this]
      show "parseMembers (Suc n) s = Some (ms, r)"
        using q quote k c colon d last by simp
    qed
  qed
qed

lemma parse_adequate:
  "(\<forall>s v r. parseValue m s = Some (v, r) \<longrightarrow> adequate parseValue s v r)
   \<and> (\<forall>s vs r. parseElements m s = Some (vs, r) \<longrightarrow> adequate parseElements s vs r)
   \<and> (\<forall>s ms r. parseMembers m s = Some (ms, r) \<longrightarrow> adequate parseMembers s ms r)"
proof (induction m)
  case 0
  show ?case by simp
next
  case (Suc m)
  show ?case
  proof (intro conjI allI impI)
    fix s v r assume "parseValue (Suc m) s = Some (v, r)"
    then show "adequate parseValue s v r"
      using Suc by (intro parseValue_step [of m s v r]) blast+
  next
    fix s vs r assume "parseElements (Suc m) s = Some (vs, r)"
    then show "adequate parseElements s vs r"
      using Suc by (intro parseElements_step [of m s vs r]) blast+
  next
    fix s ms r assume "parseMembers (Suc m) s = Some (ms, r)"
    then show "adequate parseMembers s ms r"
      using Suc by (intro parseMembers_step [of m s ms r]) blast+
  qed
qed

lemma parseValue_enough_fuel:
  assumes "parseValue m s = Some (v, r)"
  shows "parseValue (Suc (length s)) s = Some (v, r)"
proof -
  from assms parse_adequate [of m] have "adequate parseValue s v r"
    by blast
  then show ?thesis
    by (rule adequateD) simp
qed

lemma JSON_parse_enough_fuel:
  assumes "parseValue m (skipWS s) = Some (v, r)" and "skipWS r = []"
  shows "JSON_parse s = Some v"
proof -
  from assms(1) parse_adequate [of m] have "adequate parseValue (skipWS s) v r"
    by blast
  moreover have "length (skipWS s) - length r \<le> Suc (length s)"
    using length_skipWS [of s] by simp
  ultimately have "parseValue (Suc (length s)) (skipWS s) = Some (v, r)"
    by (rule adequateD)
  with assms(2) show ?thesis
    by (simp add: JSON_parse_def)
qed

section \<open>Properties of the task manager\<close>

lemma tasks_saveTasks [simp]: "tasks (saveTasks st) = tasks st"
  by (simp add: saveTasks_def)

lemma saved_text [simp]:
  "localStorage (saveTasks st) (js ''tasks'') = Some (JSON_stringify (tasksJSON (tasks st)))"
  by (simp add: saveTasks_def)

lemma numberFree_tasksJSON: "numberFree (tasksJSON ts)"
  by (simp add: tasksJSON_def taskJSON_def list_all_iff)

lemma taskJSON_inject: "taskJSON t = taskJSON t' \<longleftrightarrow> t = t'"
  by (auto simp: taskJSON_def)

lemma tasksJSON_inject: "tasksJSON ts = tasksJSON ts' \<longleftrightarrow> ts = ts'"
proof -
  have "inj taskJSON"
    by (simp add: inj_def taskJSON_inject)
  then show ?thesis
    by (simp add: tasksJSON_def)
qed

lemma parse_truncated: "JSON_parse (js ''[{'') = None"
  by (simp add: JSON_parse_def js_def skipWS_def isJSONWhiteSpace_def)

lemma parse_empty_array: "JSON_parse (js ''[]'') = Some (JArr [])"
  by (simp add: JSON_parse_def js_def skipWS_def isJSONWhiteSpace_def)

lemma find_None_task_id: "find (\<lambda>t. task_id t = i) ts = None \<longleftrightarrow> i \<notin> task_id ` set ts"
  by (auto simp: find_None_iff)

lemma filter_absent_id: "i \<notin> task_id ` set ts \<Longrightarrow> filter (\<lambda>t. task_id t \<noteq> i) ts = ts"
  by (induction ts) auto

lemma toggle_absent_id:
  "i \<notin> task_id ` set ts \<Longrightarrow>
   map (\<lambda>t. if task_id t = i then t\<lparr>completed := \<not> completed t\<rparr> else t) ts = ts"
  by (induction ts) auto

lemma matchesSearch_sublist:
  assumes "term \<noteq> []"
  shows "matchesSearch (toLowerCase term) =
     (\<lambda>t. sublist (toLowerCase term) (toLowerCase (title t)) \<or>
          sublist (toLowerCase term) (toLowerCase (description t)))"
proof (rule ext)
  fix t :: task
  from assms have "toLowerCase term \<noteq> []"
    by simp
  then show "matchesSearch (toLowerCase term) t \<longleftrightarrow>
      sublist (toLowerCase term) (toLowerCase (title t)) \<or>
      sublist (toLowerCase term) (toLowerCase (description t))"
    by (auto simp: matchesSearch_def includes_js_sublist)
qed

lemma lower_kos: "toLowerCase kos = [0x3BA, 0x3BF, 0x3C2]"
  by (simp add: kos_def toLowerCase_def codePointToUnits_def lowerCodePoint_def simpleLower_def
      finalSigma_def caseIgnorable_def cased_def lowerRuns_def caseIgnorableRanges_def
      casedRanges_def isLeadSurrogate_def isTrailSurrogate_def)

lemma lower_kosmos:
  "toLowerCase [0x39A, 0x39F, 0x3A3, 0x39C, 0x39F, 0x3A3] =
     [0x3BA, 0x3BF, 0x3C3, 0x3BC, 0x3BF, 0x3C2]"
  by (simp add: toLowerCase_def codePointToUnits_def lowerCodePoint_def simpleLower_def
      finalSigma_def caseIgnorable_def cased_def lowerRuns_def caseIgnorableRanges_def
      casedRanges_def isLeadSurrogate_def isTrailSurrogate_def)

lemma tasks_kosmosStore: "tasks kosmosStore = [kosmosTask]"
proof -
  have n: "toString 1793696400000 = js ''1793696400000''"
    by (simp add: toString.simps js_def)
  show ?thesis
    by (simp add: kosmosStore_def kosmosTask_def addTask_def trim_def emptyStore_def n
        isWhiteSpace_def)
qed

subsection \<open>Loading\<close>

text \<open>
  Claim C1, as the code has it. \<open>loadTasks\<close> returns the empty collection when the key
  \<open>tasks\<close> is absent and when it holds the empty string. When the stored text is not
  JSON, the \<open>SyntaxError\<close> of \<open>JSON.parse\<close> leaves \<open>loadTasks\<close>; otherwise
  \<open>loadTasks\<close> returns the value that was read.
\<close>

theorem loadTasks_cases:
  "(ls (js ''tasks'') = None \<longrightarrow> loadTasks ls = Inr (JArr []))
   \<and> (ls (js ''tasks'') = Some [] \<longrightarrow> loadTasks ls = Inr (JArr []))
   \<and> (ls (js ''tasks'') = Some s \<and> s \<noteq> [] \<and> JSON_parse s = None \<longrightarrow>
        loadTasks ls = Inl SyntaxError)
   \<and> (ls (js ''tasks'') = Some s \<and> s \<noteq> [] \<and> JSON_parse s = Some v \<longrightarrow> loadTasks ls = Inr v)"
  by (simp add: loadTasks_def)

theorem loadTasks_cases_witness:
  "loadTasks emptyStorage = Inr (JArr [])
   \<and> loadTasks (emptyStorage(js ''tasks'' \<mapsto> [])) = Inr (JArr [])
   \<and> loadTasks (emptyStorage(js ''tasks'' \<mapsto> js ''[{'')) = Inl SyntaxError
   \<and> loadTasks (emptyStorage(js ''tasks'' \<mapsto> js ''[]'')) = Inr (JArr [])"
  using loadTasks_cases [of emptyStorage "[]" JNull]
    loadTasks_cases [of "emptyStorage(js ''tasks'' \<mapsto> [])" "[]" JNull]
    loadTasks_cases [of "emptyStorage(js ''tasks'' \<mapsto> js ''[{'')" "js ''[{''" JNull]
    loadTasks_cases [of "emptyStorage(js ''tasks'' \<mapsto> js ''[]'')" "js ''[]''" "JArr []"]
    parse_truncated parse_empty_array
  by (simp add: js_def emptyStorage_def)

text \<open>
  Claim C1 as stated asks for the empty collection on a stored text that is not JSON.
  With the text \<open>undefined\<close> under the key, \<open>loadTasks\<close> ends in a \<open>SyntaxError\<close>.
\<close>

theorem loadTasks_corrupt_counterexample:
  "loadTasks (emptyStorage(js ''tasks'' \<mapsto> js ''undefined'')) = Inl SyntaxError
   \<and> loadTasks (emptyStorage(js ''tasks'' \<mapsto> js ''undefined'')) \<noteq> Inr (JArr [])"
  by (simp add: loadTasks_def JSON_parse_def js_def skipWS_def isJSONWhiteSpace_def
      parseNumber_def parseInt_def isDigit_def)

subsection \<open>Adding\<close>

text \<open>
  Claim C2 asks for pairwise distinct ids after any sequence of operations. The id of a
  new task is the clock reading \<open>Date.now()\<close>: two tasks added within the same
  millisecond to the empty collection get the same id.
\<close>

theorem addTask_same_millisecond_same_id:
  "map task_id (tasks sameMillisecond) = [js ''1793696400000'', js ''1793696400000'']
   \<and> \<not> distinct (map task_id (tasks sameMillisecond))"
proof -
  have n: "toString 1793696400000 = js ''1793696400000''"
    by (simp add: toString.simps js_def)
  have "map task_id (tasks sameMillisecond) = [js ''1793696400000'', js ''1793696400000'']"
    by (simp add: sameMillisecond_def addTask_def trim_def emptyStore_def n js_def
        isWhiteSpace_def)
  then show ?thesis
    by simp
qed

text \<open>
  Claim C3. When the title of the form is empty or consists of white space only,
  \<open>addTask\<close> shows the alert and returns: no task is created, and the state, with its
  collection and its stored text, is the one before.
\<close>

theorem addTask_blank_title_rejected:
  assumes "\<forall>c\<in>set (taskTitle form). isWhiteSpace c"
  shows "addTask form now stamp st = (Alert (js ''Please enter a task title''), st)"
  using assms by (simp add: addTask_def trim_Nil_iff)

theorem addTask_blank_title_rejected_witness:
  "addTask \<lparr>taskTitle = js ''   '', taskDescription = js ''milk'', taskDueDate = [],
             taskPriority = js ''low''\<rparr> 1793696400000 (js ''2026-11-03T09:00:00.000Z'')
     demoStore
   = (Alert (js ''Please enter a task title''), demoStore)"
  by (rule addTask_blank_title_rejected) (simp add: js_def isWhiteSpace_def)

text \<open>
  Claim C4. When the trimmed title is not empty, \<open>addTask\<close> adds one task: the
  collection is one longer, and the query with the filter \<open>all\<close> and no search term
  returns the new task first, followed by the tasks that were there.
\<close>

theorem addTask_prepends:
  assumes "trim (taskTitle form) \<noteq> []"
  shows "fst (addTask form now stamp st) = Added
       \<and> length (tasks (snd (addTask form now stamp st))) = length (tasks st) + 1
       \<and> query (js ''all'') [] (snd (addTask form now stamp st)) =
           \<lparr>task_id = toString now, title = trim (taskTitle form),
            description = trim (taskDescription form), dueDate = taskDueDate form,
            priority = taskPriority form, completed = False, createdAt = stamp\<rparr> # tasks st"
  using assms
  by (simp add: addTask_def Let_def query_def getFilteredTasks_def searchInput_def setFilter_def)

theorem addTask_prepends_witness:
  "fst (addTask milkDraft 1793696400000 (js ''2026-11-03T09:00:00.000Z'') demoStore) = Added
   \<and> length (tasks (snd (addTask milkDraft 1793696400000 (js ''2026-11-03T09:00:00.000Z'')
        demoStore))) = 4
   \<and> query (js ''all'') [] (snd (addTask milkDraft 1793696400000
        (js ''2026-11-03T09:00:00.000Z'') demoStore)) =
       \<lparr>task_id = js ''1793696400000'', title = js ''Buy milk'', description = [],
        dueDate = [], priority = js ''low'', completed = False,
        createdAt = js ''2026-11-03T09:00:00.000Z''\<rparr> # tasks demoStore"
proof -
  have t: "trim (taskTitle milkDraft) = js ''Buy milk''"
    by (simp add: milkDraft_def trim_def js_def isWhiteSpace_def)
  have n: "toString 1793696400000 = js ''1793696400000''"
    by (simp add: toString.simps js_def)
  have "trim (taskTitle milkDraft) \<noteq> []"
    by (simp add: t js_def)
  from addTask_prepends [OF this, of 1793696400000 "js ''2026-11-03T09:00:00.000Z''" demoStore]
  show ?thesis
    by (simp add: t n) (simp add: demo_defs trim_def)
qed

subsection \<open>Saving and loading\<close>

text \<open>
  Claim C5. After \<open>saveTasks\<close>, \<open>loadTasks\<close> reads back from \<open>localStorage\<close> the
  array of the task objects of the collection, and no other collection has that array.
\<close>

theorem save_load_roundtrip:
  "loadTasks (localStorage (saveTasks st)) = Inr (tasksJSON (tasks st))
   \<and> (tasksJSON ts = tasksJSON (tasks st)) = (ts = tasks st)"
proof -
  have "JSON_stringify (tasksJSON (tasks st)) \<noteq> []"
    by (simp add: tasksJSON_def)
  then show ?thesis
    by (simp add: loadTasks_def JSON_parse_stringify numberFree_tasksJSON tasksJSON_inject)
qed

theorem save_load_roundtrip_witness:
  "loadTasks (localStorage demoStore) = Inr (tasksJSON (tasks demoStore))"
  using save_load_roundtrip [of "emptyStore\<lparr>tasks :=
       sampleTasks (js ''2026-11-04'') (js ''2026-11-05'') (js ''2026-11-06'')
       (js ''2026-11-03T09:00:00.000Z'') (js ''2026-11-03T09:00:00.000Z'')
       (js ''2026-11-03T09:00:00.001Z'')\<rparr>"]
  by (simp add: demoStore_def addSamples_def emptyStore_def)

subsection \<open>Queries\<close>

text \<open>
  Claim C6. With no search term, the filter \<open>completed\<close> returns the completed tasks
  and the filter \<open>active\<close> the tasks that are not completed, each in the order of the
  collection. Setting the filter and the search term leaves the collection as it is;
  \<open>getFilteredTasks\<close> itself returns a list and no state.
\<close>

theorem query_status_filters:
  "query (js ''completed'') [] st = filter (\<lambda>t. completed t) (tasks st)
   \<and> query (js ''active'') [] st = filter (\<lambda>t. \<not> completed t) (tasks st)
   \<and> tasks (searchInput term (setFilter f st)) = tasks st"
  by (simp add: query_def getFilteredTasks_def searchInput_def setFilter_def)

theorem query_status_filters_witness:
  "query (js ''completed'') [] demoStore = [tasks demoStore ! 2]
   \<and> query (js ''active'') [] demoStore = [tasks demoStore ! 0, tasks demoStore ! 1]"
  using query_status_filters [of demoStore]
  by (simp add: demo_defs)

text \<open>
  Claim C7, as the code has it. A query returns, in the order of the collection, the
  tasks that pass the status filter and whose title or description, put in lower case
  by \<open>toLowerCase\<close>, contains the search term put in lower case. When the search term
  and the titles and descriptions of the collection consist of code units up to U+00FF,
  these are the tasks in whose title or description the search term occurs, ignoring
  letter case.
\<close>

theorem query_search_lowercase:
  "query f term st =
     filter (\<lambda>t. passesStatus f t \<and>
                 (sublist (toLowerCase term) (toLowerCase (title t)) \<or>
                  sublist (toLowerCase term) (toLowerCase (description t))))
       (tasks st)
   \<and> (isLatin1 term \<and> list_all (\<lambda>t. isLatin1 (title t) \<and> isLatin1 (description t)) (tasks st)
        \<longrightarrow>
        query f term st =
          filter (\<lambda>t. passesStatus f t \<and>
                      (occursIgnoringCase term (title t) \<or>
                       occursIgnoringCase term (description t)))
            (tasks st))"
proof -
  have lower: "query f term st =
     filter (\<lambda>t. passesStatus f t \<and>
                 (sublist (toLowerCase term) (toLowerCase (title t)) \<or>
                  sublist (toLowerCase term) (toLowerCase (description t))))
       (tasks st)"
  proof (cases "term = []")
    case True
    then show ?thesis
      by (simp add: query_def getFilteredTasks_def searchInput_def setFilter_def
          passesStatus_def Let_def)
  next
    case False
    then show ?thesis
      by (simp add: query_def getFilteredTasks_def searchInput_def setFilter_def
          passesStatus_def Let_def matchesSearch_sublist conj_commute)
  qed
  have "filter (\<lambda>t. passesStatus f t \<and>
                 (sublist (toLowerCase term) (toLowerCase (title t)) \<or>
                  sublist (toLowerCase term) (toLowerCase (description t))))
       (tasks st)
     = filter (\<lambda>t. passesStatus f t \<and>
                 (occursIgnoringCase term (title t) \<or> occursIgnoringCase term (description t)))
       (tasks st)"
    if "isLatin1 term"
      and "list_all (\<lambda>t. isLatin1 (title t) \<and> isLatin1 (description t)) (tasks st)"
    using that by (intro filter_cong refl) (simp add: list_all_iff occursIgnoringCase_latin1)
  with lower show ?thesis
    by simp
qed

theorem query_search_lowercase_witness:
  "query (js ''active'') (js ''TASK'') demoStore = [tasks demoStore ! 0]
   \<and> query (js ''all'') (js ''Module'') demoStore = [tasks demoStore ! 1, tasks demoStore ! 2]"
proof -
  have l: "list_all (\<lambda>t. isLatin1 (title t) \<and> isLatin1 (description t)) (tasks demoStore)"
    by (simp add: demo_defs isLatin1_def js_def)
  have t: "isLatin1 (js ''TASK'')" "isLatin1 (js ''Module'')"
    by (simp_all add: isLatin1_def js_def)
  note query_search_lowercase [THEN conjunct2, THEN mp, OF conjI]
  from this [OF t(1) l, of "js ''active''"] this [OF t(2) l, of "js ''all''"]
  show ?thesis
    by (simp add: occursIgnoringCase_code passesStatus_def demo_defs foldLatin1_def
        isCapitalLatin1_def js_def)
qed

text \<open>
  Claim C7 as stated asks for every task in whose title the search term occurs. The
  term of the Greek capitals kappa, omicron, sigma occurs as it is at the start of the
  title \<open>KOSMOS\<close> in Greek capitals, and the task passes the filter \<open>all\<close>; the query
  returns nothing, since the sigma at the end of the term becomes a final sigma and the
  one in the middle of the title does not.
\<close>

theorem query_final_sigma_counterexample:
  "tasks kosmosStore = [kosmosTask]
   \<and> passesStatus (js ''all'') kosmosTask
   \<and> sublist kos (title kosmosTask)
   \<and> occursIgnoringCase kos (title kosmosTask)
   \<and> query (js ''all'') kos kosmosStore = []"
proof -
  have "title kosmosTask = kos @ [0x39C, 0x39F, 0x3A3]"
    by (simp add: kosmosTask_def kos_def)
  then have occ: "sublist kos (title kosmosTask)"
    by simp
  then have "occursIgnoringCase kos (title kosmosTask)"
    unfolding occursIgnoringCase_def
    by (intro exI [of _ kos]) (simp add: list_all2_same sameLetter_def)
  moreover have "query (js ''all'') kos kosmosStore = []"
    by (simp add: query_def getFilteredTasks_def searchInput_def setFilter_def Let_def
        tasks_kosmosStore lower_kos matchesSearch_def kosmosTask_def lower_kosmos)
  ultimately show ?thesis
    using occ by (simp add: tasks_kosmosStore passesStatus_def)
qed

subsection \<open>Editing, deleting and toggling\<close>

text \<open>
  Claim C8. When some task has the id, \<open>editTask\<close> removes the tasks with that id from
  the collection, changes no other task, and stores the text of the new collection.
  When no task has the id, \<open>editTask\<close> returns early and the state is the one before.
\<close>

theorem editTask_removes:
  "(i \<in> task_id ` set (tasks st) \<longrightarrow>
      tasks (snd (editTask i st)) = filter (\<lambda>t. task_id t \<noteq> i) (tasks st)
      \<and> localStorage (snd (editTask i st)) (js ''tasks'') =
          Some (JSON_stringify (tasksJSON (filter (\<lambda>t. task_id t \<noteq> i) (tasks st)))))
   \<and> (i \<notin> task_id ` set (tasks st) \<longrightarrow> editTask i st = (None, st))"
proof (cases "find (\<lambda>t. task_id t = i) (tasks st)")
  case None
  moreover from None have "i \<notin> task_id ` set (tasks st)"
    by (simp add: find_None_task_id)
  ultimately show ?thesis
    by (simp add: editTask_def)
next
  case (Some t)
  then have "i \<in> task_id ` set (tasks st)"
    using find_None_task_id [of i "tasks st"] by auto
  with Some show ?thesis
    by (simp add: editTask_def)
qed

theorem editTask_removes_witness:
  "tasks (snd (editTask (js ''2'') demoStore)) = [tasks demoStore ! 0, tasks demoStore ! 2]
   \<and> editTask (js ''9'') demoStore = (None, demoStore)"
  using editTask_removes [of "js ''2''" demoStore] editTask_removes [of "js ''9''" demoStore]
  by (simp add: demo_defs js_def)

text \<open>
  Claim C9. When no task has the id, \<open>deleteTask\<close> (whatever the answer to its
  confirmation, and also when repeated) and \<open>toggleTask\<close> leave the collection as it
  is.
\<close>

theorem delete_toggle_absent_id:
  assumes "i \<notin> task_id ` set (tasks st)"
  shows "tasks (deleteTask i confirmed st) = tasks st
       \<and> tasks (deleteTask i confirmed (deleteTask i confirmed st)) = tasks st
       \<and> tasks (toggleTask i st) = tasks st"
  using assms by (simp add: deleteTask_def toggleTask_def filter_absent_id toggle_absent_id)

theorem delete_toggle_absent_id_witness:
  "tasks (deleteTask (js ''9'') True demoStore) = tasks demoStore
   \<and> tasks (toggleTask (js ''9'') demoStore) = tasks demoStore"
proof -
  have "js ''9'' \<notin> task_id ` set (tasks demoStore)"
    by (simp add: demo_defs js_def)
  from delete_toggle_absent_id [OF this, of True] show ?thesis
    by simp
qed

text \<open>
  Claim C10. \<open>toggleTask\<close> keeps the length of the collection and the position of
  every task. At every position all fields but \<open>completed\<close> are as before, and
  \<open>completed\<close> is negated exactly where the id is the given one; a task with another
  id is unchanged. Toggling the same id twice gives the collection back.
\<close>

theorem toggleTask_frame:
  "length (tasks (toggleTask i st)) = length (tasks st)
   \<and> (\<forall>k < length (tasks st).
        task_id (tasks (toggleTask i st) ! k) = task_id (tasks st ! k)
      \<and> title (tasks (toggleTask i st) ! k) = title (tasks st ! k)
      \<and> description (tasks (toggleTask i st) ! k) = description (tasks st ! k)
      \<and> dueDate (tasks (toggleTask i st) ! k) = dueDate (tasks st ! k)
      \<and> priority (tasks (toggleTask i st) ! k) = priority (tasks st ! k)
      \<and> createdAt (tasks (toggleTask i st) ! k) = createdAt (tasks st ! k)
      \<and> completed (tasks (toggleTask i st) ! k) =
          (if task_id (tasks st ! k) = i then \<not> completed (tasks st ! k)
           else completed (tasks st ! k))
      \<and> (task_id (tasks st ! k) \<noteq> i \<longrightarrow> tasks (toggleTask i st) ! k = tasks st ! k))
   \<and> tasks (toggleTask i (toggleTask i st)) = tasks st"
  by (simp add: toggleTask_def o_def map_idI)

theorem toggleTask_frame_witness:
  "length (tasks (toggleTask (js ''3'') demoStore)) = 3
   \<and> completed (tasks (toggleTask (js ''3'') demoStore) ! 2) = False
   \<and> title (tasks (toggleTask (js ''3'') demoStore) ! 2) = js ''Learn JavaScript ES6 features''
   \<and> tasks (toggleTask (js ''3'') demoStore) ! 0 = tasks demoStore ! 0
   \<and> tasks (toggleTask (js ''3'') (toggleTask (js ''3'') demoStore)) = tasks demoStore"
proof -
  have len: "length (tasks demoStore) = 3"
    by (simp add: demo_defs)
  have ids: "task_id (tasks demoStore ! 2) = js ''3''" "task_id (tasks demoStore ! 0) \<noteq> js ''3''"
    "completed (tasks demoStore ! 2)"
    "title (tasks demoStore ! 2) = js ''Learn JavaScript ES6 features''"
    by (simp_all add: demo_defs js_def)
  have k: "(2::nat) < length (tasks demoStore)" "(0::nat) < length (tasks demoStore)"
    by (simp_all add: len)
  from toggleTask_frame [of "js ''3''" demoStore] k ids len show ?thesis
    by auto
qed

end
